theory Spec2Isabelle
  imports Complex_Main "HOL-Library.AList" "HOL-Library.Multiset"
begin

section \<open>Susceptibility tensors from an ORCA report: a model of tensor_calc.py\<close>

text \<open>
  The program reads a text report line by line, collects 3x3 susceptibility tensors keyed
  by temperature, rescales them and computes invariants of their traceless part.

  Numbers. The arithmetic of the calculator is modelled twice. In the first model a
  Python \<open>float\<close> or numpy \<open>float64\<close> is a \<open>real\<close> and the operations are exact: it
  is the model of the algebraic properties, which are stated in exact arithmetic. The
  second model (the definitions ending in \<open>_f64\<close>) follows IEEE 754 binary64 with
  rounding to nearest, infinities and NaN, for the unit conversion and the traceless
  reduction: it shows what rounding and overflow do to these two functions.

  Exceptions are values: a function of the source that can raise returns
  \<open>py_error + 'a\<close>, with \<open>Inl\<close> the exception. \<open>NonFinite\<close> is no exception of Python: it
  marks a run in which \<open>float\<close> has read an infinity or a NaN from the report. The code
  goes on with that value, which is no real number, so the first model stops there.
\<close>

datatype py_error = ValueError | IndexError | TypeError | ZeroDivisionError | NonFinite

text \<open>
  A two-dimensional \<open>numpy.ndarray\<close> of floats, as the list of its rows, which all have
  one length.
\<close>

type_synonym ndarray = "real list list"

subsection \<open>Strings: the substring test, \<open>str.split\<close> and \<open>float\<close>\<close>

text \<open>
  \<open>starts_with line sub\<close> is \<open>line.startswith(sub)\<close> and
  \<open>str_contains sub line\<close> is Python's \<open>sub in line\<close>.
\<close>

fun starts_with :: "string \<Rightarrow> string \<Rightarrow> bool" where
  "starts_with _ [] = True"
| "starts_with [] (p # ps) = False"
| "starts_with (c # cs) (p # ps) = (c = p \<and> starts_with cs ps)"

fun str_contains :: "string \<Rightarrow> string \<Rightarrow> bool" where
  "str_contains sub [] = (sub = [])"
| "str_contains sub (c # cs) = (starts_with (c # cs) sub \<or> str_contains sub cs)"

text \<open>
  A character of the model is a code point below 256. Those on which \<open>str.split()\<close>
  splits: tab, line feed, vertical tab, form feed, carriage return, the four separators
  0x1C to 0x1F, the space, the next-line character 0x85 and the no-break space 0xA0.
\<close>

definition is_space :: "char \<Rightarrow> bool" where
  "is_space c \<longleftrightarrow>
     c \<in> set [CHR 0x09, CHR 0x0A, CHR 0x0B, CHR 0x0C, CHR 0x0D,
              CHR 0x1C, CHR 0x1D, CHR 0x1E, CHR 0x1F, CHR 0x20, CHR 0x85, CHR 0xA0]"

text \<open>
  \<open>split_from cur s\<close> reads \<open>s\<close> with the token \<open>cur\<close> under construction;
  \<open>split_ws line\<close> is \<open>line.split()\<close>: the maximal runs of non-space characters.
\<close>

fun split_from :: "string \<Rightarrow> string \<Rightarrow> string list" where
  "split_from cur [] = (if cur = [] then [] else [cur])"
| "split_from cur (c # cs) =
     (if is_space c then (if cur = [] then split_from [] cs else cur # split_from [] cs)
      else split_from (cur @ [c]) cs)"

definition split_ws :: "string \<Rightarrow> string list" where
  "split_ws line = split_from [] line"

subsection \<open>Rounding to binary64\<close>

text \<open>
  The binary64 numbers around a magnitude \<open>r > 0\<close> are the multiples of \<open>quantum r\<close>:
  53 significant bits, and the spacing of the subnormal numbers, \<open>2 ^ -1074\<close>, below
  \<open>2 ^ -1022\<close>. \<open>round_even\<close> is the nearest integer, the even one of two equally near.
  \<open>round_mag r\<close> is the binary64 magnitude nearest to \<open>r \<ge> 0\<close>, or \<open>None\<close> when that
  rounding overflows to an infinity.
\<close>

definition round_even :: "real \<Rightarrow> int" where
  "round_even y =
     (let n = \<lfloor>y\<rfloor>
      in if y - of_int n < 1 / 2 then n
         else if 1 / 2 < y - of_int n then n + 1
         else if even n then n else n + 1)"

definition quantum :: "real \<Rightarrow> real" where
  "quantum r = 2 powi (max \<lfloor>log 2 r\<rfloor> (- 1022) - 52)"

definition f64_overflow :: real where
  "f64_overflow = 2 ^ 1024"

definition round_mag :: "real \<Rightarrow> real option" where
  "round_mag r =
     (if r = 0 then Some 0
      else (let v = of_int (round_even (r / quantum r)) * quantum r
            in if f64_overflow \<le> v then None else Some v))"

subsection \<open>\<open>float\<close> of a token\<close>

text \<open>
  \<open>float(s)\<close> on a token without spaces. The grammar of the language reference:
  \<^verbatim>\<open>
  digitpart   ::= digit (["_"] digit)*
  number      ::= [digitpart] "." digitpart | digitpart ["."]
  exponent    ::= ("e" | "E") [sign] digitpart
  floatnumber ::= number [exponent]
  floatvalue  ::= [sign] (floatnumber | "inf" | "infinity" | "nan")
  \<close>
  with \<open>inf\<close>, \<open>infinity\<close> and \<open>nan\<close> in any mix of upper and lower case. A token outside
  the grammar raises ValueError. The value of a number is its decimal value rounded to
  binary64. A token that \<open>float\<close> reads as an infinity or a NaN (one of the three words, or
  a number too large for binary64) gives \<open>NonFinite\<close>.
\<close>

definition digit_of :: "char \<Rightarrow> nat option" where
  "digit_of c =
     map_of [(CHR ''0'', 0), (CHR ''1'', 1), (CHR ''2'', 2), (CHR ''3'', 3), (CHR ''4'', 4),
             (CHR ''5'', 5), (CHR ''6'', 6), (CHR ''7'', 7), (CHR ''8'', 8), (CHR ''9'', 9)] c"

fun digitpart :: "string \<Rightarrow> nat list option" where
  "digitpart [] = None"
| "digitpart [c] = (case digit_of c of None \<Rightarrow> None | Some d \<Rightarrow> Some [d])"
| "digitpart (c # u # cs) =
     (case digit_of c of
        None \<Rightarrow> None
      | Some d \<Rightarrow>
          (case digitpart (if u = CHR ''_'' then cs else u # cs) of
             None \<Rightarrow> None
           | Some ds \<Rightarrow> Some (d # ds)))"

definition digits_value :: "nat list \<Rightarrow> nat" where
  "digits_value ds = foldl (\<lambda>a d. 10 * a + d) 0 ds"

text \<open>
  \<open>parse_number ip fp\<close>: \<open>ip\<close> is the text before the first point, \<open>fp\<close> the text from
  the point on (empty when there is no point). The result \<open>(n, k)\<close> stands for
  \<open>n / 10 ^ k\<close>.
\<close>

definition parse_number :: "string \<Rightarrow> string \<Rightarrow> (nat \<times> nat) option" where
  "parse_number ip fp =
     (case fp of
        [] \<Rightarrow> (case digitpart ip of None \<Rightarrow> None | Some ds \<Rightarrow> Some (digits_value ds, 0))
      | _ # fr \<Rightarrow>
          (case (if ip = [] then Some [] else digitpart ip) of
             None \<Rightarrow> None
           | Some ds \<Rightarrow>
               (case (if fr = [] then Some [] else digitpart fr) of
                  None \<Rightarrow> None
                | Some fs \<Rightarrow>
                    if ip = [] \<and> fr = [] then None
                    else Some (digits_value (ds @ fs), length fs))))"

definition parse_exponent :: "string \<Rightarrow> int option" where
  "parse_exponent ex =
     (case ex of
        [] \<Rightarrow> Some 0
      | _ # rest \<Rightarrow>
          (case rest of
             [] \<Rightarrow> None
           | s # ds \<Rightarrow>
               if s = CHR ''-'' then
                 (case digitpart ds of None \<Rightarrow> None | Some e \<Rightarrow> Some (- int (digits_value e)))
               else if s = CHR ''+'' then
                 (case digitpart ds of None \<Rightarrow> None | Some e \<Rightarrow> Some (int (digits_value e)))
               else
                 (case digitpart rest of None \<Rightarrow> None | Some e \<Rightarrow> Some (int (digits_value e)))))"

definition scale10 :: "nat \<Rightarrow> int \<Rightarrow> real" where
  "scale10 n e = (if 0 \<le> e then real n * 10 ^ nat e else real n / 10 ^ nat (- e))"

text \<open>
  \<open>lower_word\<close> puts the letters of the three words into lower case; no other word
  becomes one of the three by it.
\<close>

definition lower_word :: "string \<Rightarrow> string" where
  "lower_word s =
     map (\<lambda>c. case map_of [(CHR ''I'', CHR ''i''), (CHR ''N'', CHR ''n''), (CHR ''F'', CHR ''f''),
                             (CHR ''T'', CHR ''t''), (CHR ''Y'', CHR ''y''), (CHR ''A'', CHR ''a'')] c of
                None \<Rightarrow> c | Some l \<Rightarrow> l) s"

definition py_float :: "string \<Rightarrow> py_error + real" where
  "py_float s =
     (let neg = (s \<noteq> [] \<and> hd s = CHR ''-'');
          body = (if s \<noteq> [] \<and> (hd s = CHR ''-'' \<or> hd s = CHR ''+'') then tl s else s);
          mant = takeWhile (\<lambda>c. c \<noteq> CHR ''e'' \<and> c \<noteq> CHR ''E'') body;
          ex = dropWhile (\<lambda>c. c \<noteq> CHR ''e'' \<and> c \<noteq> CHR ''E'') body;
          ip = takeWhile (\<lambda>c. c \<noteq> CHR ''.'') mant;
          fp = dropWhile (\<lambda>c. c \<noteq> CHR ''.'') mant
      in if lower_word body \<in> set [''inf'', ''infinity'', ''nan''] then Inl NonFinite
         else
           (case parse_number ip fp of
              None \<Rightarrow> Inl ValueError
            | Some (n, k) \<Rightarrow>
                (case parse_exponent ex of
                   None \<Rightarrow> Inl ValueError
                 | Some e \<Rightarrow>
                     (case round_mag (scale10 n (e - int k)) of
                        None \<Rightarrow> Inl NonFinite
                      | Some d \<Rightarrow> Inr (if neg then - d else d)))))"

subsection \<open>The extractor: \<open>parse_orca_output\<close>\<close>

text \<open>
  The dictionary \<open>tensors\<close> is an association list in insertion order: a Python
  \<open>dict\<close> keeps the position of a key that is assigned again, and appends a new key,
  which is what \<open>AList.update\<close> does. The key is the current temperature: \<open>None\<close>
  (Python's \<open>None\<close>) until a temperature line has been read.
\<close>

type_synonym tensors = "(real option \<times> ndarray) list"

definition is_temp_line :: "string \<Rightarrow> bool" where
  "is_temp_line line = str_contains ''TEMPERATURE/K:'' line"

definition is_tensor_line :: "string \<Rightarrow> bool" where
  "is_tensor_line line = str_contains ''Tensor in molecular frame'' line"

text \<open>\<open>float(line.split()[-1])\<close>.\<close>

definition parse_temperature :: "string \<Rightarrow> py_error + real" where
  "parse_temperature line =
     (case split_ws line of
        [] \<Rightarrow> Inl IndexError
      | t # ts \<Rightarrow> py_float (last (t # ts)))"

text \<open>\<open>[float(x) for x in toks]\<close>: the first token that \<open>float\<close> rejects raises.\<close>

fun floats :: "string list \<Rightarrow> py_error + real list" where
  "floats [] = Inr []"
| "floats (t # ts) =
     (case py_float t of
        Inl e \<Rightarrow> Inl e
      | Inr x \<Rightarrow> (case floats ts of Inl e \<Rightarrow> Inl e | Inr xs \<Rightarrow> Inr (x # xs)))"

text \<open>
  \<open>read_rows n rest\<close> is the loop \<open>for j in range(n): tensor.append(...)\<close>, where
  \<open>rest\<close> holds the lines after the marker line, so that \<open>lines[i + 1 + j]\<close> is
  \<open>rest ! j\<close> and raises IndexError when \<open>rest\<close> has no such line.
\<close>

fun read_rows :: "nat \<Rightarrow> string list \<Rightarrow> py_error + real list list" where
  "read_rows 0 rest = Inr []"
| "read_rows (Suc n) [] = Inl IndexError"
| "read_rows (Suc n) (l # ls) =
     (case floats (split_ws l) of
        Inl e \<Rightarrow> Inl e
      | Inr r \<Rightarrow> (case read_rows n ls of Inl e \<Rightarrow> Inl e | Inr rs \<Rightarrow> Inr (r # rs)))"

text \<open>
  \<open>np.array(rows)\<close> on a list of lists of floats: rows of one length give a
  two-dimensional array; rows of different lengths raise ValueError (numpy 1.24 and
  later: "inhomogeneous shape").
\<close>

definition np_array :: "real list list \<Rightarrow> py_error + ndarray" where
  "np_array rows =
     (case rows of
        [] \<Rightarrow> Inr []
      | r # rs \<Rightarrow> if list_all (\<lambda>q. length q = length r) rs then Inr rows else Inl ValueError)"

definition read_tensor :: "string list \<Rightarrow> py_error + ndarray" where
  "read_tensor rest =
     (case read_rows 3 rest of Inl e \<Rightarrow> Inl e | Inr rows \<Rightarrow> np_array rows)"

text \<open>
  The loop over the lines, with the state \<open>(current_temp, tensors)\<close>. The temperature
  test comes first, so a line that holds both markers sets the temperature and then
  stores a tensor under it.
\<close>

fun scan_lines :: "string list \<Rightarrow> real option \<Rightarrow> tensors \<Rightarrow> py_error + tensors" where
  "scan_lines [] current_temp tensors = Inr tensors"
| "scan_lines (line # rest) current_temp tensors =
     (case (if is_temp_line line
            then (case parse_temperature line of Inl e \<Rightarrow> Inl e | Inr t \<Rightarrow> Inr (Some t))
            else Inr current_temp) of
        Inl e \<Rightarrow> Inl e
      | Inr cur \<Rightarrow>
          if is_tensor_line line then
            (case read_tensor rest of
               Inl e \<Rightarrow> Inl e
             | Inr tensor \<Rightarrow> scan_lines rest cur (AList.update cur tensor tensors))
          else scan_lines rest cur tensors)"

text \<open>The argument is the list \<open>f.readlines()\<close> returns.\<close>

definition parse_orca_output :: "string list \<Rightarrow> py_error + tensors" where
  "parse_orca_output lines = scan_lines lines None []"

subsection \<open>The calculator\<close>

definition avogadro_number :: real where
  "avogadro_number = 6.02214129 * 10 ^ 23"

text \<open>
  The temperature is a Python object: \<open>None\<close> or a float. \<open>avogadro_number * None\<close>
  raises TypeError; a division of Python floats by zero raises ZeroDivisionError.
\<close>

definition convert_chi_tensor :: "ndarray \<Rightarrow> real option \<Rightarrow> py_error + ndarray" where
  "convert_chi_tensor chi_tensor temperature =
     (case temperature of
        None \<Rightarrow> Inl TypeError
      | Some t \<Rightarrow>
          if avogadro_number * t = 0 then Inl ZeroDivisionError
          else (let factor = (4 * pi * 10 ^ 24) / (avogadro_number * t)
                in Inr (map (map (\<lambda>x. x * factor)) chi_tensor)))"

text \<open>
  The shape of a two-dimensional array, and \<open>np.trace\<close>: the sum of the entries
  \<open>a[i][i]\<close> that exist.
\<close>

definition shape :: "'a list list \<Rightarrow> nat \<times> nat" where
  "shape a = (length a, (case a of [] \<Rightarrow> 0 | r # _ \<Rightarrow> length r))"

definition np_trace :: "ndarray \<Rightarrow> real" where
  "np_trace a = sum_list (map (\<lambda>i. a ! i ! i) [0..<min (fst (shape a)) (snd (shape a))])"

text \<open>
  \<open>chi_tensor - np.eye(3) * trace\<close>. The subtraction broadcasts the array against a
  3x3 array: each of its two dimensions has to be 3 or 1 (a dimension of 1 is repeated),
  any other shape raises ValueError.
\<close>

definition calculate_traceless_tensor :: "ndarray \<Rightarrow> py_error + ndarray" where
  "calculate_traceless_tensor chi_tensor =
     (let trace = np_trace chi_tensor / 3;
          r = fst (shape chi_tensor);
          c = snd (shape chi_tensor)
      in if (r = 1 \<or> r = 3) \<and> (c = 1 \<or> c = 3) then
           Inr (map (\<lambda>i. map (\<lambda>j. chi_tensor ! (if r = 1 then 0 else i) ! (if c = 1 then 0 else j)
                                    - (if i = j then 1 else 0) * trace) [0..<3]) [0..<3])
         else Inl ValueError)"

text \<open>
  \<open>np.argsort\<close> of a short vector: numpy's generic sort handles fewer than 17 elements
  by insertion, which keeps equal keys in their order, as \<open>sort_key\<close> does. The
  properties proved below do not depend on the order of equal keys.
\<close>

definition np_argsort :: "real list \<Rightarrow> nat list" where
  "np_argsort ks = sort_key (\<lambda>i. ks ! i) [0..<length ks]"

text \<open>
  A numpy quotient of floats does not raise: a zero divisor gives \<open>nan\<close> for a zero
  dividend and an infinity otherwise. \<open>np_abs_div a b\<close> is \<open>abs(a / b)\<close>.
\<close>

datatype np_float = Finite real | PosInf | NotANumber

definition np_abs_div :: "real \<Rightarrow> real \<Rightarrow> np_float" where
  "np_abs_div a b = (if b = 0 then (if a = 0 then NotANumber else PosInf) else Finite \<bar>a / b\<bar>)"

text \<open>The tuple \<open>calculate_eigenvalues\<close> returns, with the names of its local variables.\<close>

record decomposition =
  traceless_tensor :: ndarray
  eigvals :: "real list"
  ax_method1 :: real
  rh_method1 :: real
  ax_method2 :: real
  rh_method2 :: real
  rh_rel :: np_float
  iso :: real

text \<open>
  \<open>np.linalg.eigh\<close> belongs to numpy, not to this program: its eigenvalue vector is the
  parameter \<open>eigh\<close>. Indexing the sorted vector at 2 raises IndexError when it is
  shorter than that (which numpy's \<open>eigh\<close> of a 3x3 matrix never is).
\<close>

definition calculate_eigenvalues ::
  "(ndarray \<Rightarrow> real list) \<Rightarrow> ndarray \<Rightarrow> py_error + decomposition" where
  "calculate_eigenvalues eigh chi_tensor =
     (case calculate_traceless_tensor chi_tensor of
        Inl e \<Rightarrow> Inl e
      | Inr traceless \<Rightarrow>
          (let w = eigh traceless;
               idx = np_argsort (map abs w);
               ev = map (\<lambda>i. w ! i) idx
           in if length ev < 3 then Inl IndexError
              else Inr \<lparr>traceless_tensor = traceless,
                        eigvals = ev,
                        ax_method1 = 3 * (ev ! 2) / 2,
                        rh_method1 = (ev ! 0 - ev ! 1) / 2,
                        ax_method2 = ev ! 2 - ((ev ! 0 + ev ! 1) / 2),
                        rh_method2 = ev ! 0 - ev ! 1,
                        rh_rel = np_abs_div (ev ! 0 - ev ! 1) (ev ! 0),
                        iso = (np_trace chi_tensor / 3) * (1 / 10 ^ 30)\<rparr>))"

subsection \<open>The calculator in binary64 arithmetic\<close>

text \<open>
  A binary64 number: a sign (\<open>True\<close> for minus) and a magnitude, one of the two
  infinities, or a NaN. \<open>F64 True 0\<close> is the negative zero.
\<close>

datatype f64 = F64 bool real | F64_Inf bool | F64_NaN

text \<open>The binary64 number of sign \<open>s\<close> nearest to the magnitude \<open>r\<close>, and the one nearest to a real.\<close>

definition f64_round :: "bool \<Rightarrow> real \<Rightarrow> f64" where
  "f64_round s r = (case round_mag r of None \<Rightarrow> F64_Inf s | Some v \<Rightarrow> F64 s v)"

definition f64_of_real :: "real \<Rightarrow> f64" where
  "f64_of_real x = f64_round (x < 0) \<bar>x\<bar>"

text \<open>
  The operations of IEEE 754, as numpy applies them to \<open>float64\<close>: the exact result is
  rounded to nearest; a sum that is exactly zero is the positive zero unless both terms
  are negative zeros; a quotient by zero is a NaN for a zero dividend and an infinity
  otherwise.
\<close>

fun f64_neg :: "f64 \<Rightarrow> f64" where
  "f64_neg (F64 s m) = F64 (\<not> s) m"
| "f64_neg (F64_Inf s) = F64_Inf (\<not> s)"
| "f64_neg F64_NaN = F64_NaN"

fun f64_add :: "f64 \<Rightarrow> f64 \<Rightarrow> f64" where
  "f64_add (F64 s a) (F64 t b) =
     (let x = (if s then - a else a) + (if t then - b else b)
      in if x = 0 then F64 (s \<and> t) 0 else f64_of_real x)"
| "f64_add (F64 s a) (F64_Inf t) = F64_Inf t"
| "f64_add (F64_Inf s) (F64 t b) = F64_Inf s"
| "f64_add (F64_Inf s) (F64_Inf t) = (if s = t then F64_Inf s else F64_NaN)"
| "f64_add F64_NaN y = F64_NaN"
| "f64_add x F64_NaN = F64_NaN"

definition f64_sub :: "f64 \<Rightarrow> f64 \<Rightarrow> f64" where
  "f64_sub x y = f64_add x (f64_neg y)"

fun f64_mul :: "f64 \<Rightarrow> f64 \<Rightarrow> f64" where
  "f64_mul (F64 s a) (F64 t b) = f64_round (s \<noteq> t) (a * b)"
| "f64_mul (F64 s a) (F64_Inf t) = (if a = 0 then F64_NaN else F64_Inf (s \<noteq> t))"
| "f64_mul (F64_Inf s) (F64 t b) = (if b = 0 then F64_NaN else F64_Inf (s \<noteq> t))"
| "f64_mul (F64_Inf s) (F64_Inf t) = F64_Inf (s \<noteq> t)"
| "f64_mul F64_NaN y = F64_NaN"
| "f64_mul x F64_NaN = F64_NaN"

fun f64_div :: "f64 \<Rightarrow> f64 \<Rightarrow> f64" where
  "f64_div (F64 s a) (F64 t b) =
     (if b = 0 then (if a = 0 then F64_NaN else F64_Inf (s \<noteq> t))
      else f64_round (s \<noteq> t) (a / b))"
| "f64_div (F64 s a) (F64_Inf t) = F64 (s \<noteq> t) 0"
| "f64_div (F64_Inf s) (F64 t b) = F64_Inf (s \<noteq> t)"
| "f64_div (F64_Inf s) (F64_Inf t) = F64_NaN"
| "f64_div F64_NaN y = F64_NaN"
| "f64_div x F64_NaN = F64_NaN"

fun f64_is_zero :: "f64 \<Rightarrow> bool" where
  "f64_is_zero (F64 s m) = (m = 0)"
| "f64_is_zero (F64_Inf s) = False"
| "f64_is_zero F64_NaN = False"

text \<open>
  \<open>np.pi\<close> is the binary64 number 3.141592653589793; the literals \<open>6.02214129e23\<close> and
  \<open>1e24\<close> are the binary64 numbers nearest to their decimal values.
\<close>

definition np_pi_f64 :: f64 where
  "np_pi_f64 = F64 False (884279719003555 / 2 ^ 48)"

definition avogadro_number_f64 :: f64 where
  "avogadro_number_f64 = f64_of_real (6.02214129 * 10 ^ 23)"

text \<open>
  \<open>factor\<close> of \<open>convert_chi_tensor\<close>, computed with Python floats: a product that
  overflows is an infinity, a division by a zero raises ZeroDivisionError, a division
  by an infinity gives a zero.
\<close>

definition conversion_factor_f64 :: "f64 option \<Rightarrow> py_error + f64" where
  "conversion_factor_f64 temperature =
     (case temperature of
        None \<Rightarrow> Inl TypeError
      | Some t \<Rightarrow>
          (let numerator = f64_mul (f64_mul (F64 False 4) np_pi_f64) (f64_of_real (10 ^ 24));
               denominator = f64_mul avogadro_number_f64 t
           in if f64_is_zero denominator then Inl ZeroDivisionError
              else Inr (f64_div numerator denominator)))"

definition convert_chi_tensor_f64 :: "f64 list list \<Rightarrow> f64 option \<Rightarrow> py_error + f64 list list" where
  "convert_chi_tensor_f64 chi_tensor temperature =
     (case conversion_factor_f64 temperature of
        Inl e \<Rightarrow> Inl e
      | Inr factor \<Rightarrow> Inr (map (map (\<lambda>x. f64_mul x factor)) chi_tensor))"

text \<open>\<open>np.trace\<close> adds the diagonal entries from left to right.\<close>

definition np_trace_f64 :: "f64 list list \<Rightarrow> f64" where
  "np_trace_f64 a =
     (case map (\<lambda>i. a ! i ! i) [0..<min (fst (shape a)) (snd (shape a))] of
        [] \<Rightarrow> F64 False 0
      | d # ds \<Rightarrow> foldl f64_add d ds)"

definition calculate_traceless_tensor_f64 :: "f64 list list \<Rightarrow> py_error + f64 list list" where
  "calculate_traceless_tensor_f64 chi_tensor =
     (let trace = f64_div (np_trace_f64 chi_tensor) (F64 False 3);
          r = fst (shape chi_tensor);
          c = snd (shape chi_tensor)
      in if (r = 1 \<or> r = 3) \<and> (c = 1 \<or> c = 3) then
           Inr (map (\<lambda>i. map (\<lambda>j.
                  f64_sub (chi_tensor ! (if r = 1 then 0 else i) ! (if c = 1 then 0 else j))
                          (f64_mul (F64 False (if i = j then 1 else 0)) trace)) [0..<3]) [0..<3])
         else Inl ValueError)"

subsection \<open>The pipeline: \<open>process_orca_file\<close>\<close>

text \<open>One tuple of \<open>results\<close>.\<close>

record result_record =
  temp :: real
  res_traceless :: ndarray
  res_eigvals :: "real list"
  ax1_m :: real
  rh1_m :: real
  ax2_m :: real
  rh2_m :: real
  res_rh_rel :: np_float
  res_iso :: real

text \<open>
  The loop over \<open>tensors.items()\<close>. The comparison \<open>min_temp <= temp\<close> of a float with
  \<open>None\<close> raises TypeError.
\<close>

fun process_items ::
  "(ndarray \<Rightarrow> real list) \<Rightarrow> real \<Rightarrow> real \<Rightarrow> tensors \<Rightarrow> py_error + result_record list" where
  "process_items eigh min_temp max_temp [] = Inr []"
| "process_items eigh min_temp max_temp ((key, chi_tensor) # items) =
     (case key of
        None \<Rightarrow> Inl TypeError
      | Some t \<Rightarrow>
          if min_temp \<le> t \<and> t \<le> max_temp then
            (case convert_chi_tensor chi_tensor (Some t) of
               Inl e \<Rightarrow> Inl e
             | Inr chi_tensor_converted \<Rightarrow>
                 (case calculate_eigenvalues eigh chi_tensor_converted of
                    Inl e \<Rightarrow> Inl e
                  | Inr d \<Rightarrow>
                      (case process_items eigh min_temp max_temp items of
                         Inl e \<Rightarrow> Inl e
                       | Inr results \<Rightarrow>
                           Inr (\<lparr>temp = t,
                                 res_traceless = traceless_tensor d,
                                 res_eigvals = eigvals d,
                                 ax1_m = ax_method1 d * (1 / 10 ^ 30),
                                 rh1_m = rh_method1 d * (1 / 10 ^ 30),
                                 ax2_m = ax_method2 d * (1 / 10 ^ 30),
                                 rh2_m = rh_method2 d * (1 / 10 ^ 30),
                                 res_rh_rel = rh_rel d,
                                 res_iso = iso d\<rparr> # results))))
          else process_items eigh min_temp max_temp items)"

definition process_orca_file ::
  "(ndarray \<Rightarrow> real list) \<Rightarrow> string list \<Rightarrow> real \<Rightarrow> real \<Rightarrow> py_error + result_record list" where
  "process_orca_file eigh lines min_temp max_temp =
     (case parse_orca_output lines of
        Inl e \<Rightarrow> Inl e
      | Inr tensors \<Rightarrow> process_items eigh min_temp max_temp tensors)"

subsection \<open>The contract of \<open>np.linalg.eigh\<close>\<close>

text \<open>
  What numpy documents of \<open>eigh\<close>, in exact arithmetic and for a 3x3 argument: it reads
  the lower triangle only (\<open>UPLO = 'L'\<close>) and returns, in ascending order, the three
  eigenvalues of the symmetric matrix with that triangle, that is, the roots of its
  characteristic polynomial with their multiplicities.
\<close>

definition lower_symmetric :: "ndarray \<Rightarrow> ndarray" where
  "lower_symmetric a = map (\<lambda>i. map (\<lambda>j. a ! max i j ! min i j) [0..<3]) [0..<3]"

definition det3 :: "ndarray \<Rightarrow> real" where
  "det3 m = m ! 0 ! 0 * (m ! 1 ! 1 * m ! 2 ! 2 - m ! 1 ! 2 * m ! 2 ! 1)
          - m ! 0 ! 1 * (m ! 1 ! 0 * m ! 2 ! 2 - m ! 1 ! 2 * m ! 2 ! 0)
          + m ! 0 ! 2 * (m ! 1 ! 0 * m ! 2 ! 1 - m ! 1 ! 1 * m ! 2 ! 0)"

definition char_poly :: "ndarray \<Rightarrow> real \<Rightarrow> real" where
  "char_poly a x =
     det3 (map (\<lambda>i. map (\<lambda>j. (if i = j then x else 0) - a ! i ! j) [0..<3]) [0..<3])"

definition eigh_contract :: "ndarray \<Rightarrow> real list \<Rightarrow> bool" where
  "eigh_contract a w \<longleftrightarrow>
     length w = 3 \<and> sorted w \<and>
     (\<forall>x. char_poly (lower_symmetric a) x = (x - w ! 0) * (x - w ! 1) * (x - w ! 2))"

text \<open>
  An \<open>eigh\<close> for concrete runs on diagonal matrices, whose eigenvalues are the diagonal
  entries.
\<close>

definition eigh_diagonal :: "ndarray \<Rightarrow> real list" where
  "eigh_diagonal a = sort [a ! 0 ! 0, a ! 1 ! 1, a ! 2 ! 2]"

subsection \<open>The state of the scan, by line number\<close>

text \<open>
  Two definitions that follow the specification's words rather than the source, to state
  what the extractor's mapping holds. \<open>current_temp_after ls n\<close> is the "current
  temperature" once the first \<open>n\<close> lines have been scanned, in a run that raises no
  error: the number on the nearest temperature line among them, \<open>None\<close> when there is
  none. The current temperature of a tensor line \<open>i\<close> is \<open>current_temp_after ls (Suc i)\<close>,
  as the temperature test of a line comes before its tensor test.
\<close>

fun current_temp_after :: "string list \<Rightarrow> nat \<Rightarrow> real option" where
  "current_temp_after ls 0 = None"
| "current_temp_after ls (Suc n) =
     (if is_temp_line (ls ! n)
      then (case parse_temperature (ls ! n) of Inl e \<Rightarrow> None | Inr x \<Rightarrow> Some x)
      else current_temp_after ls n)"

text \<open>
  \<open>stored_after ls n k\<close>: the block of the last tensor line among the first \<open>n\<close> lines
  whose current temperature is \<open>k\<close>.
\<close>

fun stored_after :: "string list \<Rightarrow> nat \<Rightarrow> real option \<Rightarrow> ndarray option" where
  "stored_after ls 0 k = None"
| "stored_after ls (Suc n) k =
     (if is_tensor_line (ls ! n) \<and> current_temp_after ls (Suc n) = k
      then (case read_tensor (drop (Suc n) ls) of Inl e \<Rightarrow> None | Inr b \<Rightarrow> Some b)
      else stored_after ls n k)"

subsection \<open>Reports for concrete runs\<close>

text \<open>
  Two tensor blocks under 50 K, a temperature line without a block (75 K), and one block
  under 100 K.
\<close>

definition report_two_blocks :: "string list" where
  "report_two_blocks =
     [''TEMPERATURE/K:   50.0'',
      ''Tensor in molecular frame'', ''1 0 0'', ''0 1 0'', ''0 0 1'',
      ''Tensor in molecular frame'', ''2 0 0'', ''0 2 0'', ''0 0 2'',
      ''TEMPERATURE/K:   75.0'',
      ''TEMPERATURE/K:   100.0'',
      ''Tensor in molecular frame'', ''3 0 0'', ''0 3 0'', ''0 0 3'']"

text \<open>A tensor block before the first temperature line.\<close>

definition report_tensor_first :: "string list" where
  "report_tensor_first =
     [''Tensor in molecular frame'', ''1 0 0'', ''0 1 0'', ''0 0 1'',
      ''TEMPERATURE/K:   50.0'',
      ''Tensor in molecular frame'', ''2 0 0'', ''0 2 0'', ''0 0 2'']"

text \<open>Tensor blocks that are not three rows of three numbers.\<close>

definition report_four_columns :: "string list" where
  "report_four_columns = [''Tensor in molecular frame'', ''1 2 3 4'', ''5 6 7 8'', ''9 10 11 12'']"

definition report_truncated :: "string list" where
  "report_truncated = [''Tensor in molecular frame'', ''1 2 3'', ''4 5 6'']"

definition report_bad_token :: "string list" where
  "report_bad_token = [''Tensor in molecular frame'', ''1 2 3'', ''4 x 6'', ''7 8 9'']"

definition report_ragged :: "string list" where
  "report_ragged = [''Tensor in molecular frame'', ''1 2 3'', ''4 5'', ''7 8 9'']"

text \<open>A report with a block at 50 K and a block at 300 K.\<close>

definition report_two_temperatures :: "string list" where
  "report_two_temperatures =
     [''TEMPERATURE/K:   50.0'',
      ''Tensor in molecular frame'', ''1.0 0.0 0.0'', ''0.0 2.0 0.0'', ''0.0 0.0 3.0'',
      ''TEMPERATURE/K:   300.0'',
      ''Tensor in molecular frame'', ''2.0 0.0 0.0'', ''0.0 4.0 0.0'', ''0.0 0.0 6.0'']"

text \<open>
  Two tensors of binary64 numbers: the diagonal \<open>(1e20, -1e20, 1)\<close> and the diagonal
  \<open>(1, 2, 3)\<close>.
\<close>

definition tensor_1e20 :: "f64 list list" where
  "tensor_1e20 =
     [[F64 False (10 ^ 20), F64 False 0, F64 False 0],
      [F64 False 0, F64 True (10 ^ 20), F64 False 0],
      [F64 False 0, F64 False 0, F64 False 1]]"

definition tensor_123_f64 :: "f64 list list" where
  "tensor_123_f64 =
     [[F64 False 1, F64 False 0, F64 False 0],
      [F64 False 0, F64 False 2, F64 False 0],
      [F64 False 0, F64 False 0, F64 False 3]]"

section \<open>Properties of rounding\<close>

lemma floor_log2_eq:
  assumes "2 powi e \<le> r" and "r < 2 powi (e + 1)"
  shows "\<lfloor>log 2 r\<rfloor> = e"
proof -
  have pos: "0 < r" using assms(1) by (smt (verit) zero_less_power_int)
  have "2 powr (of_int e) \<le> r" using assms(1) by (simp add: powr_real_of_int')
  then have l: "of_int e \<le> log 2 r" using pos by (simp add: le_log_iff)
  have p: "(2::real) powr (of_int k) = 2 powi k" for k by (simp add: powr_real_of_int')
  have "r < 2 powr (of_int (e + 1))" using assms(2) by (simp only: p)
  then have u: "log 2 r < of_int (e + 1)" using pos by (simp add: log_less_iff)
  show ?thesis using l u by (intro floor_unique) auto
qed

lemma round_even_of_int: "round_even (of_int z) = z"
  by (simp add: round_even_def)

lemma round_even_near:
  assumes "\<bar>y - of_int n\<bar> < 1 / 2"
  shows "round_even y = n"
proof -
  consider "of_int n \<le> y" | "y < of_int n" by linarith
  then show ?thesis
  proof cases
    case 1
    then have "\<lfloor>y\<rfloor> = n" using assms by (intro floor_unique) auto
    then show ?thesis using assms 1 by (simp add: round_even_def)
  next
    case 2
    then have f: "\<lfloor>y\<rfloor> = n - 1" using assms by (intro floor_unique) auto
    have "1 / 2 < y - of_int (n - 1)" using assms 2 by simp
    then show ?thesis using f by (simp add: round_even_def)
  qed
qed

lemma round_even_tie:
  assumes "y = of_int n + 1 / 2"
  shows "round_even y = (if even n then n else n + 1)"
proof -
  have "\<lfloor>y\<rfloor> = n" using assms by (intro floor_unique) auto
  then show ?thesis using assms by (simp add: round_even_def)
qed

lemma quantum_eq:
  assumes "2 powi e \<le> r" and "r < 2 powi (e + 1)" and "- 1022 \<le> e"
  shows "quantum r = 2 powi (e - 52)"
  using floor_log2_eq[OF assms(1,2)] assms(3) by (simp add: quantum_def)


lemma round_mag_nat:
  assumes "0 < n" and "n < 2 ^ 53"
  shows "round_mag (real n) = Some (real n)"
proof -
  define e where "e = \<lfloor>log 2 (real n)\<rfloor>"
  have n1: "1 \<le> real n" using assms(1) by simp
  have e0: "0 \<le> e" unfolding e_def using n1 by simp
  have "log 2 (real n) < 53"
    using assms by (simp add: log_less_iff powr_realpow flip: of_nat_power)
  then have e52: "e \<le> 52" unfolding e_def by (simp add: floor_le_iff)
  define m where "m = int n * 2 ^ nat (52 - e)"
  define q where "q = (1::real) / 2 ^ nat (52 - e)"
  have "2 powi (e - 52) = q"
    unfolding q_def using e52 by (simp add: power_int_def field_simps)
  then have q: "quantum (real n) = q"
    using e0 by (simp add: quantum_def e_def)
  have "real n / q = of_int m" by (simp add: q_def m_def)
  then have r: "round_even (real n / q) = m"
    by (simp only: round_even_of_int)
  have "of_int m * q = real n" by (simp add: q_def m_def)
  then have v: "of_int (round_even (real n / quantum (real n))) * quantum (real n) = real n"
    by (simp only: q r)
  have "real n < f64_overflow"
  proof -
    have "real n < 2 ^ 53" using assms(2) by (simp flip: of_nat_power)
    also have "\<dots> \<le> 2 ^ 1024" by (rule power_increasing) auto
    finally show ?thesis by (simp only: f64_overflow_def)
  qed
  then show ?thesis using assms(1) v by (simp add: round_mag_def Let_def)
qed

lemma round_mag_0: "round_mag 0 = Some 0"
  by (simp add: round_mag_def)

lemma round_mag_1: "round_mag 1 = Some 1"
  using round_mag_nat[of 1] by simp

lemma round_mag_numeral:
  "numeral k < (2 ^ 53 :: int) \<Longrightarrow> round_mag (numeral k) = Some (numeral k)"
proof -
  assume "numeral k < (2 ^ 53 :: int)"
  then have "int (numeral k) < int (2 ^ 53)" by simp
  then have "(numeral k :: nat) < 2 ^ 53" by (simp only: of_nat_less_iff)
  then show ?thesis using round_mag_nat[of "numeral k"] by simp
qed

lemma round_mag_normal:
  assumes "2 powi (k + 52) \<le> r" and "r < 2 powi (k + 53)" and "- 1074 \<le> k"
    and "\<bar>r / 2 powi k - of_int n\<bar> < 1 / 2"
  shows "round_mag r = (if f64_overflow \<le> of_int n * 2 powi k then None else Some (of_int n * 2 powi k))"
proof -
  have pos: "0 < r" using assms(1) by (smt (verit) zero_less_power_int)
  have "r < 2 powi (k + 52 + 1)" using assms(2) by (simp add: add.commute add.left_commute)
  then have q: "quantum r = 2 powi (k + 52 - 52)"
    using assms(1,3) by (intro quantum_eq) auto
  have r: "round_even (r / 2 powi k) = n" using assms(4) by (rule round_even_near)
  show ?thesis using pos q r by (simp add: round_mag_def Let_def)
qed

lemma round_mag_tie:
  assumes "2 powi (k + 52) \<le> r" and "r < 2 powi (k + 53)" and "- 1074 \<le> k"
    and "r / 2 powi k = of_int n + 1 / 2" and "of_int (n + 1) * 2 powi k < f64_overflow"
  shows "round_mag r = Some (of_int (if even n then n else n + 1) * 2 powi k)"
proof -
  have pos: "0 < r" using assms(1) by (smt (verit) zero_less_power_int)
  have "r < 2 powi (k + 52 + 1)" using assms(2) by (simp add: add.commute add.left_commute)
  then have q: "quantum r = 2 powi (k + 52 - 52)"
    using assms(1,3) by (intro quantum_eq) auto
  have r: "round_even (r / 2 powi k) = (if even n then n else n + 1)"
    using assms(4) by (rule round_even_tie)
  have mono: "of_int n * 2 powi k \<le> of_int (n + 1) * (2::real) powi k"
    by (intro mult_right_mono) auto
  have "of_int (if even n then n else n + 1) * 2 powi k < f64_overflow"
  proof (cases "even n")
    case True
    have "of_int n * 2 powi k < f64_overflow" using mono assms(5) by linarith
    then show ?thesis using True by simp
  next
    case False
    then show ?thesis using assms(5) by (simp del: of_int_add)
  qed
  then show ?thesis using pos q r by (simp add: round_mag_def Let_def del: of_int_add)
qed

lemma floor_le_round_even: "\<lfloor>y\<rfloor> \<le> round_even y"
  by (simp add: round_even_def Let_def)

lemma round_mag_overflow:
  assumes "f64_overflow \<le> r"
  shows "round_mag r = None"
proof -
  have big: "(2::real) ^ 1024 \<le> r" using assms by (simp only: f64_overflow_def)
  have "(0::real) < 2 ^ 1024" by (rule zero_less_power) simp
  then have pos: "0 < r" using big by linarith
  define e where "e = \<lfloor>log 2 r\<rfloor>"
  have p: "(2::real) powr (of_int k) = 2 powi k" for k by (simp add: powr_real_of_int')
  have "(2::real) powr (of_int 1024) = 2 powi 1024" by (rule p)
  also have "\<dots> = 2 ^ 1024" by (simp only: power_int_numeral)
  finally have "2 powr (of_int 1024) \<le> r" using big by (simp only:)
  then have "of_int 1024 \<le> log 2 r" using pos by (simp only: le_log_iff)
  then have e: "1024 \<le> e" unfolding e_def by (simp only: le_floor_iff)
  have q: "quantum r = 2 powi (e - 52)" using e by (simp add: quantum_def e_def)
  have "of_int e \<le> log 2 r" unfolding e_def by simp
  then have "2 powr (of_int e) \<le> r" using pos by (simp add: le_log_iff)
  then have le: "2 powi e \<le> r" by (simp only: p)
  have "(2::real) powi (52 + (e - 52)) = 2 powi 52 * 2 powi (e - 52)"
    by (rule power_int_add) simp
  moreover have "52 + (e - 52) = e" by simp
  ultimately have split: "(2::real) powi e = 2 powi 52 * 2 powi (e - 52)"
    by (simp only:)
  have qpos: "(0::real) < 2 powi (e - 52)" by simp
  have "2 powi 52 * 2 powi (e - 52) \<le> r" using le split by (simp only:)
  then have "(2::real) powi 52 \<le> r / 2 powi (e - 52)"
    using qpos by (simp only: pos_le_divide_eq)
  then have "of_int (2 ^ 52) \<le> r / 2 powi (e - 52)" by simp
  then have "(2 ^ 52 :: int) \<le> \<lfloor>r / 2 powi (e - 52)\<rfloor>" by (simp only: le_floor_iff)
  then have "(2 ^ 52 :: int) \<le> round_even (r / 2 powi (e - 52))"
    using floor_le_round_even[of "r / 2 powi (e - 52)"] by linarith
  then have "(of_int (2 ^ 52) :: real) \<le> of_int (round_even (r / 2 powi (e - 52)))"
    by (simp only: of_int_le_iff)
  then have "(2::real) powi 52 \<le> of_int (round_even (r / 2 powi (e - 52)))" by simp
  then have "2 powi 52 * 2 powi (e - 52) \<le> of_int (round_even (r / 2 powi (e - 52))) * (2::real) powi (e - 52)"
    using qpos by (simp only: mult_le_cancel_right_pos)
  then have v: "(2::real) powi e \<le> of_int (round_even (r / 2 powi (e - 52))) * 2 powi (e - 52)"
    by (simp only: split)
  have "(2::real) powi 1024 \<le> 2 powi e"
    using e by (intro power_int_increasing) auto
  then have "f64_overflow \<le> 2 powi e" by (simp only: f64_overflow_def power_int_numeral)
  then have "f64_overflow \<le> of_int (round_even (r / quantum r)) * quantum r"
    using v unfolding q by linarith
  then show ?thesis using pos by (simp add: round_mag_def Let_def)
qed

section \<open>Properties of the calculator\<close>

lemma upt3: "[0..<3] = [0, 1, 2]"
  by (simp add: eval_nat_numeral)

lemma list3: "length xs = 3 \<Longrightarrow> xs = [xs ! 0, xs ! 1, xs ! 2]"
  by (auto simp: list_eq_iff_nth_eq less_Suc_eq eval_nat_numeral)

lemma np_trace_3x3: "shape a = (3, 3) \<Longrightarrow> np_trace a = a ! 0 ! 0 + a ! 1 ! 1 + a ! 2 ! 2"
  by (simp add: np_trace_def upt3)

lemma traceless_3x3:
  assumes "shape chi_tensor = (3, 3)"
  shows "calculate_traceless_tensor chi_tensor =
     Inr (map (\<lambda>i. map (\<lambda>j. chi_tensor ! i ! j
                 - (if i = j then 1 else 0) * (np_trace chi_tensor / 3)) [0, 1, 2]) [0, 1, 2])"
  using assms by (simp add: calculate_traceless_tensor_def upt3 Let_def)

lemma traceless_shape:
  "calculate_traceless_tensor chi_tensor = Inr t \<Longrightarrow> shape t = (3, 3)"
  by (auto simp: calculate_traceless_tensor_def Let_def upt3 shape_def split: if_splits)

lemma traceless_trace:
  assumes "shape chi_tensor = (3, 3)" and "calculate_traceless_tensor chi_tensor = Inr t"
  shows "np_trace t = 0"
proof -
  have s: "shape t = (3, 3)" using assms(2) by (rule traceless_shape)
  have t: "t = map (\<lambda>i. map (\<lambda>j. chi_tensor ! i ! j
                 - (if i = j then 1 else 0) * (np_trace chi_tensor / 3)) [0, 1, 2]) [0, 1, 2]"
    using traceless_3x3[OF assms(1)] assms(2) by simp
  have "np_trace t = t ! 0 ! 0 + t ! 1 ! 1 + t ! 2 ! 2" using s by (rule np_trace_3x3)
  also have "\<dots> = (chi_tensor ! 0 ! 0 - np_trace chi_tensor / 3)
      + (chi_tensor ! 1 ! 1 - np_trace chi_tensor / 3)
      + (chi_tensor ! 2 ! 2 - np_trace chi_tensor / 3)"
    by (subst (1 2 3) t) simp
  also have "\<dots> = 0"
    unfolding np_trace_3x3[OF assms(1)] by (simp add: field_simps)
  finally show ?thesis .
qed

text \<open>
  C2. The traceless reduction of a 3x3 tensor succeeds and its result has trace zero,
  exactly (so also below the bound 1e-9 of the specification).
\<close>

theorem traceless_trace_zero:
  assumes "shape chi_tensor = (3, 3)"
  shows "\<exists>t. calculate_traceless_tensor chi_tensor = Inr t \<and> np_trace t = 0 \<and>
    \<bar>np_trace t\<bar> < 1 / 10 ^ 9"
proof -
  obtain t where t: "calculate_traceless_tensor chi_tensor = Inr t"
    using traceless_3x3[OF assms] by blast
  with traceless_trace[OF assms t] show ?thesis by simp
qed

theorem traceless_trace_zero_witness:
  "shape [[1, 0, 0], [0, 2, 0], [0, 0, 3]] = (3, 3) \<and>
   (\<exists>t. calculate_traceless_tensor [[1, 0, 0], [0, 2, 0], [0, 0, 3]] = Inr t \<and> np_trace t = 0 \<and>
     \<bar>np_trace t\<bar> < 1 / 10 ^ 9)"
  using traceless_trace_zero[of "[[1, 0, 0], [0, 2, 0], [0, 0, 3]]"] by (simp add: shape_def)

text \<open>
  C3. The unit conversion raises for the temperature \<open>None\<close> (TypeError) and for the
  temperature 0 (ZeroDivisionError), whatever the tensor: it returns no array.
\<close>

theorem convert_fails_without_temperature:
  "convert_chi_tensor chi_tensor None = Inl TypeError \<and>
   convert_chi_tensor chi_tensor (Some 0) = Inl ZeroDivisionError"
  by (simp add: convert_chi_tensor_def)

lemma avogadro_pos: "0 < avogadro_number"
  by (simp add: avogadro_number_def)

text \<open>
  C8. For a temperature other than 0 the conversion succeeds, and dividing every entry
  of its result by the conversion factor gives the tensor back.
\<close>

theorem convert_roundtrip:
  assumes "T \<noteq> 0"
  shows "\<exists>c. convert_chi_tensor chi_tensor (Some T) = Inr c \<and>
     map (map (\<lambda>x. x / ((4 * pi * 10 ^ 24) / (avogadro_number * T)))) c = chi_tensor"
proof -
  let ?f = "(4 * pi * 10 ^ 24) / (avogadro_number * T)"
  have nz: "avogadro_number * T \<noteq> 0" using assms avogadro_pos by simp
  then have f: "?f \<noteq> 0" by simp
  have c: "convert_chi_tensor chi_tensor (Some T) = Inr (map (map (\<lambda>x. x * ?f)) chi_tensor)"
    using nz by (simp add: convert_chi_tensor_def Let_def)
  have "map (map (\<lambda>x. x / ?f)) (map (map (\<lambda>x. x * ?f)) chi_tensor)
      = map (map (\<lambda>x. x * ?f / ?f)) chi_tensor"
    by (simp add: comp_def)
  also have "\<dots> = chi_tensor"
    using f by simp
  finally show ?thesis using c by simp
qed

theorem convert_roundtrip_witness:
  "(50::real) \<noteq> 0 \<and>
   (\<exists>c. convert_chi_tensor [[1, 0, 0], [0, 2, 0], [0, 0, 3]] (Some 50) = Inr c \<and>
     map (map (\<lambda>x. x / ((4 * pi * 10 ^ 24) / (avogadro_number * 50)))) c
       = [[1, 0, 0], [0, 2, 0], [0, 0, 3]])"
  using convert_roundtrip[of 50 "[[1, 0, 0], [0, 2, 0], [0, 0, 3]]"] by simp

subsection \<open>The Mehring order\<close>

lemma argsort_length: "length (np_argsort ks) = length ks"
  by (simp add: np_argsort_def)

lemma argsort_set: "set (np_argsort ks) = {0..<length ks}"
  by (simp add: np_argsort_def)

lemma argsort_sorted: "sorted (map (\<lambda>i. ks ! i) (np_argsort ks))"
  by (simp add: np_argsort_def)

lemma argsort_mset:
  assumes "length ks = length w"
  shows "mset (map (\<lambda>i. w ! i) (np_argsort ks)) = mset w"
proof -
  have "mset (map (\<lambda>i. w ! i) (np_argsort ks))
      = image_mset (\<lambda>i. w ! i) (mset [0..<length w])"
    by (simp add: np_argsort_def assms)
  also have "\<dots> = mset (map (\<lambda>i. w ! i) [0..<length w])" by simp
  also have "\<dots> = mset w" by (simp only: map_nth)
  finally show ?thesis .
qed

lemma mehring_sorted: "sorted (map abs (map (\<lambda>i. w ! i) (np_argsort (map abs w))))"
proof -
  have "map (\<lambda>i. \<bar>w ! i\<bar>) (np_argsort (map abs w))
      = map (\<lambda>i. map abs w ! i) (np_argsort (map abs w))"
    by (rule map_cong[OF refl]) (simp add: argsort_set)
  moreover have "map abs (map (\<lambda>i. w ! i) (np_argsort (map abs w)))
      = map (\<lambda>i. \<bar>w ! i\<bar>) (np_argsort (map abs w))"
    by (simp add: comp_def)
  ultimately show ?thesis using argsort_sorted[of "map abs w"] by (simp only:)
qed

lemma calculate_eigenvalues_3:
  assumes "calculate_traceless_tensor chi_tensor = Inr t" and "length (eigh t) = 3"
  shows "\<exists>d. calculate_eigenvalues eigh chi_tensor = Inr d \<and> traceless_tensor d = t \<and>
    eigvals d = map (\<lambda>i. eigh t ! i) (np_argsort (map abs (eigh t))) \<and>
    ax_method1 d = 3 * (eigvals d ! 2) / 2 \<and>
    rh_method1 d = (eigvals d ! 0 - eigvals d ! 1) / 2 \<and>
    ax_method2 d = eigvals d ! 2 - ((eigvals d ! 0 + eigvals d ! 1) / 2) \<and>
    rh_method2 d = eigvals d ! 0 - eigvals d ! 1"
  using assms by (simp add: calculate_eigenvalues_def Let_def argsort_length)

lemma traceless_diag_123:
  "calculate_traceless_tensor [[1, 0, 0], [0, 2, 0], [0, 0, 3]]
     = Inr [[- 1, 0, 0], [0, 0, 0], [0, 0, 1]]"
  by (simp add: calculate_traceless_tensor_def shape_def np_trace_def upt3 Let_def)

lemma contract_diag_123:
  "eigh_contract [[- 1, 0, 0], [0, 0, 0], [0, 0, 1]]
     (eigh_diagonal [[- 1, 0, 0], [0, 0, 0], [0, 0, 1]])"
  by (simp add: eigh_contract_def eigh_diagonal_def char_poly_def det3_def
      lower_symmetric_def upt3)

text \<open>
  C1. For a 3x3 tensor whose traceless part is \<open>t\<close>, and an \<open>eigh\<close> that returns the
  eigenvalues of \<open>t\<close>, the calculator succeeds and its eigenvalue triple is a
  permutation of those eigenvalues, in ascending order of absolute value.
\<close>

theorem mehring_order:
  assumes "shape chi_tensor = (3, 3)"
    and "calculate_traceless_tensor chi_tensor = Inr t"
    and "eigh_contract t (eigh t)"
  shows "\<exists>d. calculate_eigenvalues eigh chi_tensor = Inr d \<and> traceless_tensor d = t \<and>
    length (eigvals d) = 3 \<and> mset (eigvals d) = mset (eigh t) \<and>
    \<bar>eigvals d ! 0\<bar> \<le> \<bar>eigvals d ! 1\<bar> \<and> \<bar>eigvals d ! 1\<bar> \<le> \<bar>eigvals d ! 2\<bar>"
proof -
  have len: "length (eigh t) = 3" using assms(3) by (simp add: eigh_contract_def)
  obtain d where d: "calculate_eigenvalues eigh chi_tensor = Inr d" "traceless_tensor d = t"
    "eigvals d = map (\<lambda>i. eigh t ! i) (np_argsort (map abs (eigh t)))"
    using calculate_eigenvalues_3[of chi_tensor t eigh, OF assms(2) len] by blast
  have l3: "length (eigvals d) = 3" using d(3) len by (simp add: argsort_length)
  have ms: "mset (eigvals d) = mset (eigh t)" unfolding d(3) by (rule argsort_mset) simp
  have "sorted (map abs (eigvals d))" unfolding d(3) by (rule mehring_sorted)
  then have "sorted (map abs [eigvals d ! 0, eigvals d ! 1, eigvals d ! 2])"
    using list3[OF l3] by simp
  then have "\<bar>eigvals d ! 0\<bar> \<le> \<bar>eigvals d ! 1\<bar> \<and> \<bar>eigvals d ! 1\<bar> \<le> \<bar>eigvals d ! 2\<bar>"
    by simp
  with d l3 ms show ?thesis by blast
qed

theorem mehring_order_witness:
  "shape [[1, 0, 0], [0, 2, 0], [0, 0, 3]] = (3, 3) \<and>
   calculate_traceless_tensor [[1, 0, 0], [0, 2, 0], [0, 0, 3]]
     = Inr [[- 1, 0, 0], [0, 0, 0], [0, 0, 1]] \<and>
   eigh_contract [[- 1, 0, 0], [0, 0, 0], [0, 0, 1]]
     (eigh_diagonal [[- 1, 0, 0], [0, 0, 0], [0, 0, 1]]) \<and>
   (\<exists>d. calculate_eigenvalues eigh_diagonal [[1, 0, 0], [0, 2, 0], [0, 0, 3]] = Inr d \<and>
      traceless_tensor d = [[- 1, 0, 0], [0, 0, 0], [0, 0, 1]] \<and>
      length (eigvals d) = 3 \<and>
      mset (eigvals d) = mset (eigh_diagonal [[- 1, 0, 0], [0, 0, 0], [0, 0, 1]]) \<and>
      \<bar>eigvals d ! 0\<bar> \<le> \<bar>eigvals d ! 1\<bar> \<and> \<bar>eigvals d ! 1\<bar> \<le> \<bar>eigvals d ! 2\<bar>)"
proof -
  have s: "shape [[1, 0, 0], [0, 2, 0], [0, 0, 3]] = (3, 3)" by (simp add: shape_def)
  show ?thesis
    using s traceless_diag_123 contract_diag_123
      mehring_order[of "[[1, 0, 0], [0, 2, 0], [0, 0, 3]]" "[[- 1, 0, 0], [0, 0, 0], [0, 0, 1]]"
        eigh_diagonal, OF s traceless_diag_123 contract_diag_123]
    by blast
qed

subsection \<open>Axiality and rhombicity\<close>

lemma eigenvalues_diag_114:
  "calculate_eigenvalues eigh_diagonal [[1, 0, 0], [0, 1, 0], [0, 0, 4]] =
     Inr \<lparr>traceless_tensor = [[- 1, 0, 0], [0, - 1, 0], [0, 0, 2]], eigvals = [- 1, - 1, 2],
          ax_method1 = 3, rh_method1 = 0, ax_method2 = 3, rh_method2 = 0,
          rh_rel = Finite 0, iso = 2 / 10 ^ 30\<rparr>"
  by (simp add: calculate_eigenvalues_def calculate_traceless_tensor_def shape_def np_trace_def
      upt3 eigh_diagonal_def np_argsort_def np_abs_div_def Let_def)

text \<open>
  C9. When the first two eigenvalues of the returned triple are equal, both
  rhombicities are exactly 0.
\<close>

theorem degenerate_rhombicity_zero:
  assumes "calculate_eigenvalues eigh chi_tensor = Inr d"
    and "eigvals d ! 0 = eigvals d ! 1"
  shows "rh_method1 d = 0 \<and> rh_method2 d = 0"
  using assms
  by (auto simp: calculate_eigenvalues_def Let_def split: sum.splits if_splits)

theorem degenerate_rhombicity_zero_witness:
  "(\<exists>d. calculate_eigenvalues eigh_diagonal [[1, 0, 0], [0, 1, 0], [0, 0, 4]] = Inr d \<and>
      eigvals d = [- 1, - 1, 2] \<and> eigvals d ! 0 = eigvals d ! 1 \<and>
      rh_method1 d = 0 \<and> rh_method2 d = 0)"
proof -
  let ?d = "\<lparr>traceless_tensor = [[- 1, 0, 0], [0, - 1, 0], [0, 0, 2]], eigvals = [- 1, - 1, 2],
          ax_method1 = 3, rh_method1 = 0, ax_method2 = 3, rh_method2 = 0,
          rh_rel = Finite 0, iso = 2 / 10 ^ 30\<rparr>"
  have e: "eigvals ?d ! 0 = eigvals ?d ! 1" by simp
  have "rh_method1 ?d = 0 \<and> rh_method2 ?d = 0"
    using eigenvalues_diag_114 e by (rule degenerate_rhombicity_zero)
  with eigenvalues_diag_114 show ?thesis by simp
qed

lemma char_poly_trace:
  assumes "\<forall>x. char_poly s x = (x - a) * (x - b) * (x - c)"
  shows "a + b + c = s ! 0 ! 0 + s ! 1 ! 1 + s ! 2 ! 2"
proof -
  have p0: "char_poly s 0 = (0 - a) * (0 - b) * (0 - c)" using assms by blast
  have p1: "char_poly s 1 = (1 - a) * (1 - b) * (1 - c)" using assms by blast
  have p2: "char_poly s (- 1) = (- 1 - a) * (- 1 - b) * (- 1 - c)" using assms by blast
  from p0 p1 p2 show ?thesis
    unfolding char_poly_def det3_def upt3 by (simp add: algebra_simps)
qed

lemma lower_symmetric_diag:
  "lower_symmetric a ! 0 ! 0 = a ! 0 ! 0"
  "lower_symmetric a ! Suc 0 ! Suc 0 = a ! Suc 0 ! Suc 0"
  "lower_symmetric a ! 2 ! 2 = a ! 2 ! 2"
  by (simp_all add: lower_symmetric_def upt3)

lemma eigh_contract_sum:
  assumes "eigh_contract t w" and "shape t = (3, 3)"
  shows "sum_list w = np_trace t"
proof -
  have len: "length w = 3" using assms(1) by (simp add: eigh_contract_def)
  have "w ! 0 + w ! 1 + w ! 2 = np_trace t"
    using assms(1) char_poly_trace[of "lower_symmetric t" "w ! 0" "w ! 1" "w ! 2"]
    by (simp add: eigh_contract_def lower_symmetric_diag np_trace_3x3[OF assms(2)])
  moreover have "sum_list w = w ! 0 + w ! 1 + w ! 2"
    by (subst list3[OF len]) simp
  ultimately show ?thesis by simp
qed

text \<open>
  C10. For a 3x3 tensor and an \<open>eigh\<close> that returns the eigenvalues of its traceless
  part, the returned eigenvalues sum to 0, so the two axialities \<open>3/2 * ev[2]\<close> and
  \<open>ev[2] - (ev[0] + ev[1])/2\<close> are equal; and the second rhombicity is twice the first.
\<close>

theorem axiality_conventions_agree:
  assumes "shape chi_tensor = (3, 3)"
    and "calculate_traceless_tensor chi_tensor = Inr t"
    and "eigh_contract t (eigh t)"
  shows "\<exists>d. calculate_eigenvalues eigh chi_tensor = Inr d \<and>
    eigvals d ! 0 + eigvals d ! 1 + eigvals d ! 2 = 0 \<and>
    ax_method1 d = 3 / 2 * (eigvals d ! 2) \<and>
    ax_method2 d = eigvals d ! 2 - (eigvals d ! 0 + eigvals d ! 1) / 2 \<and>
    ax_method1 d = ax_method2 d \<and> rh_method2 d = 2 * rh_method1 d"
proof -
  have len: "length (eigh t) = 3" using assms(3) by (simp add: eigh_contract_def)
  obtain d where d: "calculate_eigenvalues eigh chi_tensor = Inr d"
    "eigvals d = map (\<lambda>i. eigh t ! i) (np_argsort (map abs (eigh t)))"
    "ax_method1 d = 3 * (eigvals d ! 2) / 2"
    "rh_method1 d = (eigvals d ! 0 - eigvals d ! 1) / 2"
    "ax_method2 d = eigvals d ! 2 - ((eigvals d ! 0 + eigvals d ! 1) / 2)"
    "rh_method2 d = eigvals d ! 0 - eigvals d ! 1"
    using calculate_eigenvalues_3[of chi_tensor t eigh, OF assms(2) len] by blast
  have l3: "length (eigvals d) = 3" using d(2) len by (simp add: argsort_length)
  have "mset (eigvals d) = mset (eigh t)" unfolding d(2) by (rule argsort_mset) simp
  then have "sum_list (eigvals d) = sum_list (eigh t)"
    by (metis sum_mset_sum_list)
  also have "\<dots> = np_trace t"
    using assms(3) traceless_shape[OF assms(2)] by (rule eigh_contract_sum)
  also have "\<dots> = 0" using assms(1,2) by (rule traceless_trace)
  finally have "sum_list (eigvals d) = 0" .
  moreover have "sum_list (eigvals d) = eigvals d ! 0 + eigvals d ! 1 + eigvals d ! 2"
    by (subst list3[OF l3]) simp
  ultimately have z: "eigvals d ! 0 + eigvals d ! 1 + eigvals d ! 2 = 0" by simp
  then have "eigvals d ! 0 + eigvals d ! 1 = - (eigvals d ! 2)" by linarith
  then have "ax_method1 d = ax_method2 d" using d(3,5) by (simp add: field_simps)
  with z d show ?thesis by simp
qed

theorem axiality_conventions_agree_witness:
  "shape [[1, 0, 0], [0, 2, 0], [0, 0, 3]] = (3, 3) \<and>
   calculate_traceless_tensor [[1, 0, 0], [0, 2, 0], [0, 0, 3]]
     = Inr [[- 1, 0, 0], [0, 0, 0], [0, 0, 1]] \<and>
   eigh_contract [[- 1, 0, 0], [0, 0, 0], [0, 0, 1]]
     (eigh_diagonal [[- 1, 0, 0], [0, 0, 0], [0, 0, 1]]) \<and>
   (\<exists>d. calculate_eigenvalues eigh_diagonal [[1, 0, 0], [0, 2, 0], [0, 0, 3]] = Inr d \<and>
      eigvals d ! 0 + eigvals d ! 1 + eigvals d ! 2 = 0 \<and>
      ax_method1 d = 3 / 2 * (eigvals d ! 2) \<and>
      ax_method2 d = eigvals d ! 2 - (eigvals d ! 0 + eigvals d ! 1) / 2 \<and>
      ax_method1 d = ax_method2 d \<and> rh_method2 d = 2 * rh_method1 d)"
proof -
  have s: "shape [[1, 0, 0], [0, 2, 0], [0, 0, 3]] = (3, 3)" by (simp add: shape_def)
  show ?thesis
    using s traceless_diag_123 contract_diag_123
      axiality_conventions_agree[of "[[1, 0, 0], [0, 2, 0], [0, 0, 3]]"
        "[[- 1, 0, 0], [0, 0, 0], [0, 0, 1]]" eigh_diagonal,
        OF s traceless_diag_123 contract_diag_123]
    by blast
qed

section \<open>The calculator in binary64 arithmetic: two runs\<close>

lemma round_third: "round_mag (1 / 3) = Some (6004799503160661 / 2 ^ 54)"
  using round_mag_normal[of "- 54" "1 / 3" 6004799503160661]
  by (simp add: f64_overflow_def)

lemma round_third_again:
  "round_mag (6004799503160661 / 2 ^ 54) = Some (6004799503160661 / 2 ^ 54)"
  using round_mag_normal[of "- 54" "6004799503160661 / 2 ^ 54" 6004799503160661]
  by (simp add: f64_overflow_def)

lemma round_1e20_minus:
  "round_mag (10 ^ 20 - 6004799503160661 / 2 ^ 54) = Some (10 ^ 20)"
  using round_mag_normal[of 14 "10 ^ 20 - 6004799503160661 / 2 ^ 54" 6103515625000000]
  by (simp add: f64_overflow_def)

lemma round_1e20_plus:
  "round_mag (10 ^ 20 + 6004799503160661 / 2 ^ 54) = Some (10 ^ 20)"
  using round_mag_normal[of 14 "10 ^ 20 + 6004799503160661 / 2 ^ 54" 6103515625000000]
  by (simp add: f64_overflow_def)

lemma round_two_thirds_tie:
  "round_mag (1 - 6004799503160661 / 2 ^ 54) = Some (6004799503160662 / 2 ^ 53)"
  using round_mag_tie[of "- 53" "1 - 6004799503160661 / 2 ^ 54" 6004799503160661]
  by (simp add: f64_overflow_def)

lemma round_two_thirds:
  "round_mag (6004799503160662 / 2 ^ 53) = Some (6004799503160662 / 2 ^ 53)"
  using round_mag_normal[of "- 53" "6004799503160662 / 2 ^ 53" 6004799503160662]
  by (simp add: f64_overflow_def)


lemma round_mag_values:
  "r = 1 / 3 \<Longrightarrow> round_mag r = Some (6004799503160661 / 2 ^ 54)"
  "r = 6004799503160661 / 2 ^ 54 \<Longrightarrow> round_mag r = Some (6004799503160661 / 2 ^ 54)"
  "r = 10 ^ 20 - 6004799503160661 / 2 ^ 54 \<Longrightarrow> round_mag r = Some (10 ^ 20)"
  "r = 10 ^ 20 + 6004799503160661 / 2 ^ 54 \<Longrightarrow> round_mag r = Some (10 ^ 20)"
  "r = 1 - 6004799503160661 / 2 ^ 54 \<Longrightarrow> round_mag r = Some (6004799503160662 / 2 ^ 53)"
  "r = 6004799503160662 / 2 ^ 53 \<Longrightarrow> round_mag r = Some (6004799503160662 / 2 ^ 53)"
  using round_third round_third_again round_1e20_minus round_1e20_plus round_two_thirds_tie
    round_two_thirds
  by (simp_all only:)

text \<open>
  C2, as stated for binary64 arithmetic, fails: the traceless reduction of the diagonal
  tensor \<open>(1e20, -1e20, 1)\<close> has the diagonal \<open>(1e20, -1e20, 0.6666666666666667)\<close>, whose
  trace is not below 1e-9.
\<close>

theorem traceless_trace_f64_large:
  "calculate_traceless_tensor_f64 tensor_1e20 =
     Inr [[F64 False (10 ^ 20), F64 False 0, F64 False 0],
          [F64 False 0, F64 True (10 ^ 20), F64 False 0],
          [F64 False 0, F64 False 0, F64 False (6004799503160662 / 2 ^ 53)]] \<and>
   np_trace_f64 [[F64 False (10 ^ 20), F64 False 0, F64 False 0],
          [F64 False 0, F64 True (10 ^ 20), F64 False 0],
          [F64 False 0, F64 False 0, F64 False (6004799503160662 / 2 ^ 53)]]
     = F64 False (6004799503160662 / 2 ^ 53) \<and>
   \<not> 6004799503160662 / 2 ^ 53 < (1::real) / 10 ^ 9"
  by (simp add: calculate_traceless_tensor_f64_def np_trace_f64_def shape_def tensor_1e20_def
      upt3 f64_sub_def f64_of_real_def f64_round_def Let_def
      round_mag_0 round_mag_1 round_mag_values)


lemma round_avogadro:
  "round_mag (6.02214129 * 10 ^ 23) = Some (8973689809441566 * 2 ^ 26)"
  using round_mag_normal[of 26 "6.02214129 * 10 ^ 23" 8973689809441566]
  by (simp add: f64_overflow_def)

lemma round_four_pi:
  "round_mag (4 * (884279719003555 / 2 ^ 48)) = Some (7074237752028440 / 2 ^ 49)"
  using round_mag_normal[of "- 49" "4 * (884279719003555 / 2 ^ 48)" 7074237752028440]
  by (simp add: f64_overflow_def)

lemma round_1e24: "round_mag (10 ^ 24) = Some (7450580596923828 * 2 ^ 27)"
  using round_mag_normal[of 27 "10 ^ 24" 7450580596923828]
  by (simp add: f64_overflow_def)

lemma round_numerator:
  "round_mag (7074237752028440 / 2 ^ 49 * (7450580596923828 * 2 ^ 27))
     = Some (5851672317068638 * 2 ^ 31)"
  using round_mag_normal[of 31 "7074237752028440 / 2 ^ 49 * (7450580596923828 * 2 ^ 27)"
      5851672317068638]
  by (simp add: f64_overflow_def)

lemma round_2_1000: "round_mag (2 ^ 1000) = Some (2 ^ 1000)"
  using round_mag_normal[of 948 "2 ^ 1000" "2 ^ 52"]
  by (simp add: f64_overflow_def)

lemma round_1e20: "round_mag (10 ^ 20) = Some (10 ^ 20)"
  using round_mag_normal[of 14 "10 ^ 20" 6103515625000000]
  by (simp add: f64_overflow_def)

lemma round_denominator: "round_mag (8973689809441566 * 2 ^ 26 * 2 ^ 1000) = None"
  by (rule round_mag_overflow) (simp add: f64_overflow_def)

lemma conversion_values:
  "r = 6.02214129 * 10 ^ 23 \<Longrightarrow> round_mag r = Some (8973689809441566 * 2 ^ 26)"
  "r = 4 * (884279719003555 / 2 ^ 48) \<Longrightarrow> round_mag r = Some (7074237752028440 / 2 ^ 49)"
  "r = 10 ^ 24 \<Longrightarrow> round_mag r = Some (7450580596923828 * 2 ^ 27)"
  "r = 7074237752028440 / 2 ^ 49 * (7450580596923828 * 2 ^ 27)
     \<Longrightarrow> round_mag r = Some (5851672317068638 * 2 ^ 31)"
  "r = 8973689809441566 * 2 ^ 26 * 2 ^ 1000 \<Longrightarrow> round_mag r = None"
  "r = 2 ^ 1000 \<Longrightarrow> round_mag r = Some (2 ^ 1000)"
  using round_avogadro round_four_pi round_1e24 round_numerator round_denominator round_2_1000
  by (simp_all only:)

text \<open>
  C8, as stated for binary64 arithmetic, fails: at the temperature \<open>2 ^ 1000\<close> the product
  with the Avogadro number overflows, the factor is 0, the converted tensor is zero, and
  dividing it by the factor gives NaN in every entry.
\<close>

theorem convert_roundtrip_f64_overflow:
  "f64_of_real (2 ^ 1000) = F64 False (2 ^ 1000) \<and>
   conversion_factor_f64 (Some (F64 False (2 ^ 1000))) = Inr (F64 False 0) \<and>
   convert_chi_tensor_f64 tensor_123_f64 (Some (F64 False (2 ^ 1000))) =
     Inr [[F64 False 0, F64 False 0, F64 False 0],
          [F64 False 0, F64 False 0, F64 False 0],
          [F64 False 0, F64 False 0, F64 False 0]] \<and>
   map (map (\<lambda>y. f64_div y (F64 False 0)))
       [[F64 False 0, F64 False 0, F64 False 0],
        [F64 False 0, F64 False 0, F64 False 0],
        [F64 False 0, F64 False 0, F64 False 0]] =
     [[F64_NaN, F64_NaN, F64_NaN], [F64_NaN, F64_NaN, F64_NaN], [F64_NaN, F64_NaN, F64_NaN]]"
  by (simp add: convert_chi_tensor_f64_def conversion_factor_f64_def tensor_123_f64_def
      avogadro_number_f64_def np_pi_f64_def f64_of_real_def f64_round_def Let_def
      round_mag_0 conversion_values)

section \<open>Properties of the extractor\<close>

lemma py_float_error: "py_float s = Inl e \<Longrightarrow> e = ValueError \<or> e = NonFinite"
  by (auto simp: py_float_def Let_def split: if_splits option.splits prod.splits)

lemma parse_temperature_error:
  "parse_temperature line = Inl e \<Longrightarrow> e = IndexError \<or> e = ValueError \<or> e = NonFinite"
  by (auto simp: parse_temperature_def split: list.splits dest: py_float_error)

lemma floats_error: "floats ts = Inl e \<Longrightarrow> e = ValueError \<or> e = NonFinite"
  by (induction ts arbitrary: e) (auto split: sum.splits dest: py_float_error)

lemma read_rows_error:
  "read_rows n rest = Inl e \<Longrightarrow> e = IndexError \<or> e = ValueError \<or> e = NonFinite"
  by (induction n rest arbitrary: e rule: read_rows.induct)
    (auto split: sum.splits dest: floats_error)

lemma read_tensor_error:
  "read_tensor rest = Inl e \<Longrightarrow> e = IndexError \<or> e = ValueError \<or> e = NonFinite"
  by (auto simp: read_tensor_def np_array_def split: sum.splits list.splits if_splits
      dest: read_rows_error)

lemma scan_lines_error:
  "scan_lines ls cur m = Inl e \<Longrightarrow> e = IndexError \<or> e = ValueError \<or> e = NonFinite"
proof (induction ls arbitrary: cur m)
  case Nil
  then show ?case by simp
next
  case (Cons line rest)
  then show ?case
    by (auto split: if_splits sum.splits dest: parse_temperature_error read_tensor_error)
qed

text \<open>Without a token that \<open>float\<close> reads as an infinity or a NaN, no run ends in \<open>NonFinite\<close>.\<close>

lemma floats_finite:
  "\<forall>tok\<in>set ts. py_float tok \<noteq> Inl NonFinite \<Longrightarrow> floats ts \<noteq> Inl NonFinite"
  by (induction ts) (auto split: sum.splits)

lemma read_rows_finite:
  "\<forall>line\<in>set rest. \<forall>tok\<in>set (split_ws line). py_float tok \<noteq> Inl NonFinite \<Longrightarrow>
     read_rows n rest \<noteq> Inl NonFinite"
proof (induction n rest rule: read_rows.induct)
  case (3 n l ls)
  have f: "floats (split_ws l) \<noteq> Inl NonFinite" using "3.prems" by (intro floats_finite) simp
  show ?case
  proof (cases "floats (split_ws l)")
    case (Inl e)
    then show ?thesis using f by auto
  next
    case (Inr b)
    then have "read_rows n ls \<noteq> Inl NonFinite" using "3.IH" "3.prems" by simp
    then show ?thesis using Inr by (auto split: sum.splits)
  qed
qed simp_all

lemma read_tensor_finite:
  assumes "\<forall>line\<in>set rest. \<forall>tok\<in>set (split_ws line). py_float tok \<noteq> Inl NonFinite"
  shows "read_tensor rest \<noteq> Inl NonFinite"
  using read_rows_finite[OF assms, of 3]
  by (auto simp: read_tensor_def np_array_def split: sum.splits list.splits if_splits)

lemma parse_temperature_finite:
  assumes "\<forall>tok\<in>set (split_ws line). py_float tok \<noteq> Inl NonFinite"
  shows "parse_temperature line \<noteq> Inl NonFinite"
proof (cases "split_ws line")
  case Nil
  then show ?thesis by (simp add: parse_temperature_def)
next
  case (Cons t ts)
  then have "last (t # ts) \<in> set (split_ws line)" using last_in_set[of "t # ts"] by simp
  then show ?thesis using assms Cons by (simp add: parse_temperature_def)
qed

lemma scan_lines_finite:
  "\<forall>line\<in>set ls. \<forall>tok\<in>set (split_ws line). py_float tok \<noteq> Inl NonFinite \<Longrightarrow>
     scan_lines ls cur m \<noteq> Inl NonFinite"
proof (induction ls arbitrary: cur m)
  case Nil
  then show ?case by simp
next
  case (Cons line rest)
  have t: "parse_temperature line \<noteq> Inl NonFinite"
    using Cons.prems by (intro parse_temperature_finite) simp
  have r: "read_tensor rest \<noteq> Inl NonFinite"
    using Cons.prems by (intro read_tensor_finite) simp
  have ih: "scan_lines rest c a \<noteq> Inl NonFinite" for c a
    using Cons by simp
  show ?case using t r ih by (auto split: sum.splits)
qed

lemma drop_eq_ConsD:
  assumes "drop n ls = line # rest"
  shows "n < length ls" and "ls ! n = line" and "drop (Suc n) ls = rest"
proof -
  show "n < length ls" using assms by (metis drop_all list.distinct(1) not_le)
  show "ls ! n = line" using assms by (rule nth_via_drop)
  show "drop (Suc n) ls = rest" using assms by (metis drop_Suc list.sel(3) tl_drop)
qed

lemma scan_lines_invariant:
  assumes "scan_lines rest cur m = Inr m'"
    and "drop n ls = rest" and "n \<le> length ls"
    and "cur = current_temp_after ls n"
    and "map_of m = stored_after ls n" and "distinct (map fst m)"
  shows "map_of m' = stored_after ls (length ls) \<and> distinct (map fst m')"
  using assms
proof (induction rest arbitrary: n cur m)
  case Nil
  then show ?case by simp
next
  case (Cons line rest)
  note d = drop_eq_ConsD[OF Cons.prems(2)]
  let ?cur = "current_temp_after ls (Suc n)"
  have step: "(is_temp_line line \<longrightarrow> (\<exists>x. parse_temperature line = Inr x))"
    using Cons.prems(1) by (auto split: sum.splits if_splits)
  have cur: "(if is_temp_line line
            then (case parse_temperature line of Inl e \<Rightarrow> Inl e | Inr t \<Rightarrow> Inr (Some t))
            else Inr cur) = Inr ?cur"
    using step Cons.prems(4) d(2) by auto
  show ?case
  proof (cases "is_tensor_line line")
    case True
    then obtain b where b: "read_tensor rest = Inr b"
      and s: "scan_lines rest ?cur (AList.update ?cur b m) = Inr m'"
      using Cons.prems(1) cur by (auto split: sum.splits simp del: current_temp_after.simps)
    have "map_of (AList.update ?cur b m) = stored_after ls (Suc n)"
      using True b d Cons.prems(5) by (auto simp: update_conv' fun_eq_iff simp del: current_temp_after.simps)
    moreover have "distinct (map fst (AList.update ?cur b m))"
      using Cons.prems(6) by (rule distinct_update)
    ultimately show ?thesis
      using Cons.IH[OF s d(3) _ refl] d(1) by simp
  next
    case False
    then have s: "scan_lines rest ?cur m = Inr m'"
      using Cons.prems(1) cur by (auto split: sum.splits simp del: current_temp_after.simps)
    have "map_of m = stored_after ls (Suc n)"
      using False d Cons.prems(5) by (auto simp: fun_eq_iff)
    then show ?thesis
      using Cons.IH[OF s d(3) _ refl _ Cons.prems(6)] d(1) by simp
  qed
qed

lemma scan_lines_well_formed:
  assumes "scan_lines rest cur m = Inr m'" and "drop n ls = rest"
    and "n \<le> i" and "i < length ls"
  shows "(is_temp_line (ls ! i) \<longrightarrow> (\<exists>x. parse_temperature (ls ! i) = Inr x)) \<and>
         (is_tensor_line (ls ! i) \<longrightarrow> (\<exists>b. read_tensor (drop (Suc i) ls) = Inr b))"
  using assms
proof (induction rest arbitrary: n cur m)
  case Nil
  then show ?case by simp
next
  case (Cons line rest)
  note d = drop_eq_ConsD[OF Cons.prems(2)]
  obtain cur' m1 where s: "scan_lines rest cur' m1 = Inr m'"
    using Cons.prems(1) by (auto split: sum.splits if_splits)
  show ?case
  proof (cases "i = n")
    case True
    then show ?thesis
      using Cons.prems(1) d by (auto split: sum.splits if_splits)
  next
    case False
    then have "Suc n \<le> i" using Cons.prems(3) by simp
    then show ?thesis using Cons.IH[OF s d(3) _ Cons.prems(4)] by simp
  qed
qed

lemma scan_lines_succeeds:
  assumes "drop n ls = rest"
    and "\<forall>i<length ls. n \<le> i \<longrightarrow> 
          (is_temp_line (ls ! i) \<longrightarrow> (\<exists>x. parse_temperature (ls ! i) = Inr x)) \<and>
          (is_tensor_line (ls ! i) \<longrightarrow> (\<exists>b. read_tensor (drop (Suc i) ls) = Inr b))"
  shows "\<exists>m'. scan_lines rest cur m = Inr m'"
  using assms
proof (induction rest arbitrary: n cur m)
  case Nil
  then show ?case by simp
next
  case (Cons line rest)
  note d = drop_eq_ConsD[OF Cons.prems(1)]
  have wf: "(is_temp_line line \<longrightarrow> (\<exists>x. parse_temperature line = Inr x)) \<and>
         (is_tensor_line line \<longrightarrow> (\<exists>b. read_tensor rest = Inr b))"
    using Cons.prems(2) d by auto
  have ih: "\<exists>m'. scan_lines rest c a = Inr m'" for c a
    using Cons.IH[OF d(3)] Cons.prems(2) by simp
  show ?case using wf ih by (auto split: sum.splits)
qed


lemma current_temp_after_None:
  "(\<forall>j<n. \<not> is_temp_line (ls ! j)) \<Longrightarrow> current_temp_after ls n = None"
  by (induction n) auto

lemma current_temp_after_Some:
  "current_temp_after ls n = Some x \<Longrightarrow>
     \<exists>j<n. is_temp_line (ls ! j) \<and> parse_temperature (ls ! j) = Inr x"
proof (induction n)
  case 0
  then show ?case by simp
next
  case (Suc n)
  show ?case
  proof (cases "is_temp_line (ls ! n)")
    case True
    then have "parse_temperature (ls ! n) = Inr x"
      using Suc.prems by (auto split: sum.splits)
    with True show ?thesis by blast
  next
    case False
    then obtain j where "j < n" "is_temp_line (ls ! j)" "parse_temperature (ls ! j) = Inr x"
      using Suc by auto
    then show ?thesis using less_Suc_eq by blast
  qed
qed

lemma current_temp_after_not_None:
  assumes "\<forall>j<n. is_temp_line (ls ! j) \<longrightarrow> (\<exists>x. parse_temperature (ls ! j) = Inr x)"
    and "j < n" and "is_temp_line (ls ! j)"
  shows "current_temp_after ls n \<noteq> None"
  using assms
proof (induction n)
  case 0
  then show ?case by simp
next
  case (Suc n)
  show ?case
  proof (cases "is_temp_line (ls ! n)")
    case True
    then show ?thesis using Suc.prems(1) by auto
  next
    case False
    then have "j < n" using Suc.prems(2,3) less_Suc_eq by auto
    then show ?thesis using False Suc by auto
  qed
qed

lemma stored_after_iff:
  assumes "\<forall>i<n. is_tensor_line (ls ! i) \<longrightarrow> (\<exists>b. read_tensor (drop (Suc i) ls) = Inr b)"
  shows "stored_after ls n k = Some t \<longleftrightarrow>
    (\<exists>i<n. is_tensor_line (ls ! i) \<and> current_temp_after ls (Suc i) = k \<and>
        read_tensor (drop (Suc i) ls) = Inr t \<and>
        (\<forall>j<n. i < j \<and> is_tensor_line (ls ! j) \<longrightarrow> current_temp_after ls (Suc j) \<noteq> k))"
  using assms
proof (induction n)
  case 0
  then show ?case by simp
next
  case (Suc n)
  have ih: "stored_after ls n k = Some t \<longleftrightarrow>
    (\<exists>i<n. is_tensor_line (ls ! i) \<and> current_temp_after ls (Suc i) = k \<and>
        read_tensor (drop (Suc i) ls) = Inr t \<and>
        (\<forall>j<n. i < j \<and> is_tensor_line (ls ! j) \<longrightarrow> current_temp_after ls (Suc j) \<noteq> k))"
    using Suc by simp
  show ?case
  proof (cases "is_tensor_line (ls ! n) \<and> current_temp_after ls (Suc n) = k")
    case True
    then obtain b where b: "read_tensor (drop (Suc n) ls) = Inr b" using Suc.prems by blast
    have l: "stored_after ls (Suc n) k = Some b" using True b by simp
    show ?thesis
    proof
      assume "stored_after ls (Suc n) k = Some t"
      then have "b = t" using l by simp
      then show "\<exists>i<Suc n. is_tensor_line (ls ! i) \<and> current_temp_after ls (Suc i) = k \<and>
        read_tensor (drop (Suc i) ls) = Inr t \<and>
        (\<forall>j<Suc n. i < j \<and> is_tensor_line (ls ! j) \<longrightarrow> current_temp_after ls (Suc j) \<noteq> k)"
        using True b by (intro exI[of _ n]) auto
    next
      assume "\<exists>i<Suc n. is_tensor_line (ls ! i) \<and> current_temp_after ls (Suc i) = k \<and>
        read_tensor (drop (Suc i) ls) = Inr t \<and>
        (\<forall>j<Suc n. i < j \<and> is_tensor_line (ls ! j) \<longrightarrow> current_temp_after ls (Suc j) \<noteq> k)"
      then obtain i where i: "i < Suc n" "read_tensor (drop (Suc i) ls) = Inr t"
        "\<forall>j<Suc n. i < j \<and> is_tensor_line (ls ! j) \<longrightarrow> current_temp_after ls (Suc j) \<noteq> k"
        by blast
      have "i = n"
      proof (rule ccontr)
        assume "i \<noteq> n"
        then have "i < n" using i(1) by simp
        then show False using i(3) True by blast
      qed
      then show "stored_after ls (Suc n) k = Some t" using i(2) b l by simp
    qed
  next
    case False
    then have l: "stored_after ls (Suc n) k = stored_after ls n k" by auto
    have "(\<exists>i<n. is_tensor_line (ls ! i) \<and> current_temp_after ls (Suc i) = k \<and>
        read_tensor (drop (Suc i) ls) = Inr t \<and>
        (\<forall>j<n. i < j \<and> is_tensor_line (ls ! j) \<longrightarrow> current_temp_after ls (Suc j) \<noteq> k))
      \<longleftrightarrow> (\<exists>i<Suc n. is_tensor_line (ls ! i) \<and> current_temp_after ls (Suc i) = k \<and>
        read_tensor (drop (Suc i) ls) = Inr t \<and>
        (\<forall>j<Suc n. i < j \<and> is_tensor_line (ls ! j) \<longrightarrow> current_temp_after ls (Suc j) \<noteq> k))"
      (is "?L \<longleftrightarrow> ?R")
    proof
      assume ?L
      then obtain i where i: "i < n" "is_tensor_line (ls ! i)" "current_temp_after ls (Suc i) = k"
        "read_tensor (drop (Suc i) ls) = Inr t"
        "\<forall>j<n. i < j \<and> is_tensor_line (ls ! j) \<longrightarrow> current_temp_after ls (Suc j) \<noteq> k"
        by blast
      have "\<forall>j<Suc n. i < j \<and> is_tensor_line (ls ! j) \<longrightarrow> current_temp_after ls (Suc j) \<noteq> k"
        using i(5) False less_Suc_eq by auto
      then show ?R using i(1-4) less_Suc_eq by blast
    next
      assume ?R
      then obtain i where i: "i < Suc n" "is_tensor_line (ls ! i)"
        "current_temp_after ls (Suc i) = k" "read_tensor (drop (Suc i) ls) = Inr t"
        "\<forall>j<Suc n. i < j \<and> is_tensor_line (ls ! j) \<longrightarrow> current_temp_after ls (Suc j) \<noteq> k"
        by blast
      have "i \<noteq> n" using i(2,3) False by blast
      then have "i < n" using i(1) by simp
      moreover have "\<forall>j<n. i < j \<and> is_tensor_line (ls ! j) \<longrightarrow> current_temp_after ls (Suc j) \<noteq> k"
        using i(5) by auto
      ultimately show ?L using i(2-4) by blast
    qed
    then show ?thesis using ih l by simp
  qed
qed

lemma parse_orca_output_stored:
  assumes "parse_orca_output ls = Inr m"
  shows "map_of m = stored_after ls (length ls)" and "distinct (map fst m)"
  using scan_lines_invariant[of ls None "[]" m 0 ls] assms
  by (simp_all add: parse_orca_output_def fun_eq_iff)

lemma parse_orca_output_well_formed:
  assumes "parse_orca_output ls = Inr m" and "i < length ls"
  shows "is_temp_line (ls ! i) \<longrightarrow> (\<exists>x. parse_temperature (ls ! i) = Inr x)"
    and "is_tensor_line (ls ! i) \<longrightarrow> (\<exists>b. read_tensor (drop (Suc i) ls) = Inr b)"
  using scan_lines_well_formed[of ls None "[]" m 0 ls i] assms
  by (simp_all add: parse_orca_output_def)

lemma parse_orca_output_entries:
  assumes "parse_orca_output ls = Inr m"
  shows "(k, t) \<in> set m \<longleftrightarrow>
    (\<exists>i<length ls. is_tensor_line (ls ! i) \<and> current_temp_after ls (Suc i) = k \<and>
        read_tensor (drop (Suc i) ls) = Inr t \<and>
        (\<forall>j<length ls. i < j \<and> is_tensor_line (ls ! j) \<longrightarrow> current_temp_after ls (Suc j) \<noteq> k))"
proof -
  have "(k, t) \<in> set m \<longleftrightarrow> map_of m k = Some t"
    using parse_orca_output_stored(2)[OF assms] by simp
  also have "\<dots> \<longleftrightarrow> stored_after ls (length ls) k = Some t"
    using parse_orca_output_stored(1)[OF assms] by simp
  finally show ?thesis
    using stored_after_iff[of "length ls" ls k t] parse_orca_output_well_formed(2)[OF assms]
    by simp
qed

text \<open>
  C6. In the mapping a successful extraction returns, every temperature key occurs once,
  and the entry of a key is the block of the last tensor line (in source order) whose
  current temperature is that key: \<open>(k, t)\<close> is an entry exactly when some tensor line
  \<open>i\<close> has current temperature \<open>k\<close> and block \<open>t\<close>, and no later tensor line has current
  temperature \<open>k\<close>. A temperature under which no tensor line stands has no entry.
\<close>

theorem last_write_wins:
  assumes "parse_orca_output ls = Inr m"
  shows "distinct (map fst m) \<and>
    ((k, t) \<in> set m \<longleftrightarrow>
      (\<exists>i<length ls. is_tensor_line (ls ! i) \<and> current_temp_after ls (Suc i) = k \<and>
        read_tensor (drop (Suc i) ls) = Inr t \<and>
        (\<forall>j<length ls. i < j \<and> is_tensor_line (ls ! j) \<longrightarrow> current_temp_after ls (Suc j) \<noteq> k))) \<and>
    ((\<forall>i<length ls. is_tensor_line (ls ! i) \<longrightarrow> current_temp_after ls (Suc i) \<noteq> k)
       \<longrightarrow> k \<notin> fst ` set m)"
proof -
  have "k \<notin> fst ` set m"
    if "\<forall>i<length ls. is_tensor_line (ls ! i) \<longrightarrow> current_temp_after ls (Suc i) \<noteq> k"
  proof
    assume "k \<in> fst ` set m"
    then obtain b where "(k, b) \<in> set m" by auto
    then show False using that parse_orca_output_entries[OF assms, of k b] by blast
  qed
  then show ?thesis
    using parse_orca_output_stored(2)[OF assms] parse_orca_output_entries[OF assms, of k t]
    by blast
qed

text \<open>The definitions a concrete report is evaluated with.\<close>

lemmas parser_defs = parse_orca_output_def is_temp_line_def is_tensor_line_def
  parse_temperature_def split_ws_def is_space_def read_tensor_def np_array_def
  py_float_def lower_word_def parse_number_def parse_exponent_def digit_of_def digits_value_def
  scale10_def round_mag_0 round_mag_1 round_mag_numeral

lemma parse_report_two_blocks:
  "parse_orca_output report_two_blocks =
     Inr [(Some 50, [[2, 0, 0], [0, 2, 0], [0, 0, 2]]), (Some 100, [[3, 0, 0], [0, 3, 0], [0, 0, 3]])]"
  by (simp add: report_two_blocks_def parser_defs eval_nat_numeral)

lemma no_block_under_75:
  "\<forall>i<length report_two_blocks. is_tensor_line (report_two_blocks ! i) \<longrightarrow>
      current_temp_after report_two_blocks (Suc i) \<noteq> Some 75"
  by (simp add: report_two_blocks_def parser_defs All_less_Suc)

theorem last_write_wins_witness:
  "parse_orca_output report_two_blocks =
     Inr [(Some 50, [[2, 0, 0], [0, 2, 0], [0, 0, 2]]), (Some 100, [[3, 0, 0], [0, 3, 0], [0, 0, 3]])] \<and>
   (\<exists>i<length report_two_blocks. is_tensor_line (report_two_blocks ! i) \<and>
      current_temp_after report_two_blocks (Suc i) = Some 50 \<and>
      read_tensor (drop (Suc i) report_two_blocks) = Inr [[2, 0, 0], [0, 2, 0], [0, 0, 2]] \<and>
      (\<forall>j<length report_two_blocks. i < j \<and> is_tensor_line (report_two_blocks ! j) \<longrightarrow>
         current_temp_after report_two_blocks (Suc j) \<noteq> Some 50)) \<and>
   Some 75 \<notin> fst ` set [(Some 50, [[2, 0, 0], [0, 2, 0], [0, 0, 2]]), (Some (100::real), [[3, 0, 0], [0, 3, 0], [0, 0, 3::real]])]"
  using last_write_wins[OF parse_report_two_blocks, of "Some 50" "[[2, 0, 0], [0, 2, 0], [0, 0, 2]]"]
    last_write_wins[OF parse_report_two_blocks, of "Some 75"] no_block_under_75 parse_report_two_blocks
  by simp

text \<open>
  C5. In a report whose temperature lines and tensor blocks are all readable, a tensor
  line \<open>i\<close> with no temperature line at or before it does not make the extraction fail:
  the extraction succeeds and the returned mapping holds the block of line \<open>i\<close> under the
  key \<open>None\<close>, line \<open>i\<close> being the last tensor line that no temperature line precedes
  (an earlier such block is replaced by it, as under any other key). No number stands in
  for the missing temperature: every numeric key of the mapping is the number read from
  a temperature line of the report.
\<close>

theorem tensor_before_temperature:
  assumes wf1: "\<forall>j<length ls. is_temp_line (ls ! j) \<longrightarrow> (\<exists>x. parse_temperature (ls ! j) = Inr x)"
    and wf2: "\<forall>j<length ls. is_tensor_line (ls ! j) \<longrightarrow> (\<exists>b. read_tensor (drop (Suc j) ls) = Inr b)"
    and i: "i < length ls" "is_tensor_line (ls ! i)" "\<forall>j\<le>i. \<not> is_temp_line (ls ! j)"
    and t: "read_tensor (drop (Suc i) ls) = Inr t"
    and last: "\<forall>j<length ls. i < j \<and> is_tensor_line (ls ! j) \<longrightarrow> (\<exists>k\<le>j. is_temp_line (ls ! k))"
  shows "\<exists>m. parse_orca_output ls = Inr m \<and> (None, t) \<in> set m \<and>
    (\<forall>x b. (Some x, b) \<in> set m \<longrightarrow>
       (\<exists>j<length ls. is_temp_line (ls ! j) \<and> parse_temperature (ls ! j) = Inr x))"
proof -
  have wf: "\<forall>q<length ls. 0 \<le> q \<longrightarrow>
          (is_temp_line (ls ! q) \<longrightarrow> (\<exists>x. parse_temperature (ls ! q) = Inr x)) \<and>
          (is_tensor_line (ls ! q) \<longrightarrow> (\<exists>b. read_tensor (drop (Suc q) ls) = Inr b))"
    using wf1 wf2 by simp
  have "\<exists>m. scan_lines ls None [] = Inr m"
    using drop_0 wf by (rule scan_lines_succeeds)
  then obtain m where m: "parse_orca_output ls = Inr m"
    unfolding parse_orca_output_def by blast
  have "\<forall>j<Suc i. \<not> is_temp_line (ls ! j)"
    using i(3) by (simp add: less_Suc_eq_le)
  then have c: "current_temp_after ls (Suc i) = None"
    by (rule current_temp_after_None)
  have later: "\<forall>j<length ls. i < j \<and> is_tensor_line (ls ! j) \<longrightarrow>
      current_temp_after ls (Suc j) \<noteq> None"
  proof (intro allI impI)
    fix j assume j: "j < length ls" "i < j \<and> is_tensor_line (ls ! j)"
    then obtain k where k: "k \<le> j" "is_temp_line (ls ! k)" using last by blast
    have w: "\<forall>q<Suc j. is_temp_line (ls ! q) \<longrightarrow> (\<exists>x. parse_temperature (ls ! q) = Inr x)"
      using wf1 j(1) by simp
    have "k < Suc j" using k(1) by simp
    with w show "current_temp_after ls (Suc j) \<noteq> None"
      using k(2) by (rule current_temp_after_not_None)
  qed
  have "\<exists>q<length ls. is_tensor_line (ls ! q) \<and> current_temp_after ls (Suc q) = None \<and>
        read_tensor (drop (Suc q) ls) = Inr t \<and>
        (\<forall>j<length ls. q < j \<and> is_tensor_line (ls ! j) \<longrightarrow> current_temp_after ls (Suc j) \<noteq> None)"
    using i(1,2) c t later by (intro exI[of _ i]) simp
  then have none: "(None, t) \<in> set m"
    by (simp only: parse_orca_output_entries[OF m])
  have keys: "\<exists>j<length ls. is_temp_line (ls ! j) \<and> parse_temperature (ls ! j) = Inr x"
    if "(Some x, b) \<in> set m" for x b
  proof -
    have "\<exists>q<length ls. is_tensor_line (ls ! q) \<and> current_temp_after ls (Suc q) = Some x \<and>
        read_tensor (drop (Suc q) ls) = Inr b \<and>
        (\<forall>j<length ls. q < j \<and> is_tensor_line (ls ! j) \<longrightarrow> current_temp_after ls (Suc j) \<noteq> Some x)"
      using that by (simp only: parse_orca_output_entries[OF m])
    then obtain q where q: "q < length ls" "current_temp_after ls (Suc q) = Some x"
      by blast
    obtain j where j: "j < Suc q" "is_temp_line (ls ! j)" "parse_temperature (ls ! j) = Inr x"
      using current_temp_after_Some[OF q(2)] by blast
    have "j < length ls" using j(1) q(1) by simp
    then show ?thesis using j(2,3) by blast
  qed
  show ?thesis using m none keys by blast
qed


lemma parse_report_tensor_first:
  "parse_orca_output report_tensor_first =
     Inr [(None, [[1, 0, 0], [0, 1, 0], [0, 0, 1]]), (Some 50, [[2, 0, 0], [0, 2, 0], [0, 0, 2]])]"
  by (simp add: report_tensor_first_def parser_defs eval_nat_numeral)

theorem tensor_before_temperature_witness:
  "0 < length report_tensor_first \<and> is_tensor_line (report_tensor_first ! 0) \<and>
   \<not> is_temp_line (report_tensor_first ! 0) \<and>
   read_tensor (drop (Suc 0) report_tensor_first) = Inr [[1, 0, 0], [0, 1, 0], [0, 0, 1]] \<and>
   (\<exists>m. parse_orca_output report_tensor_first = Inr m \<and>
      (None, [[1, 0, 0], [0, 1, 0], [0, 0, 1]]) \<in> set m \<and>
      (\<forall>x b. (Some x, b) \<in> set m \<longrightarrow>
         (\<exists>j<length report_tensor_first. is_temp_line (report_tensor_first ! j) \<and>
            parse_temperature (report_tensor_first ! j) = Inr x)))"
proof -
  note p = parse_report_tensor_first
  have wf1: "\<forall>j<length report_tensor_first. is_temp_line (report_tensor_first ! j) \<longrightarrow>
      (\<exists>x. parse_temperature (report_tensor_first ! j) = Inr x)"
    using parse_orca_output_well_formed(1)[OF p] by blast
  have wf2: "\<forall>j<length report_tensor_first. is_tensor_line (report_tensor_first ! j) \<longrightarrow>
      (\<exists>b. read_tensor (drop (Suc j) report_tensor_first) = Inr b)"
    using parse_orca_output_well_formed(2)[OF p] by blast
  have i1: "0 < length report_tensor_first" by (simp add: report_tensor_first_def)
  have i2: "is_tensor_line (report_tensor_first ! 0)"
    by (simp add: report_tensor_first_def is_tensor_line_def)
  have i3: "\<forall>j\<le>0. \<not> is_temp_line (report_tensor_first ! j)"
    by (simp add: report_tensor_first_def is_temp_line_def)
  have t: "read_tensor (drop (Suc 0) report_tensor_first) = Inr [[1, 0, 0], [0, 1, 0], [0, 0, 1]]"
    by (simp add: report_tensor_first_def parser_defs eval_nat_numeral)
  have last: "\<forall>j<length report_tensor_first. 0 < j \<and> is_tensor_line (report_tensor_first ! j) \<longrightarrow>
      (\<exists>k\<le>j. is_temp_line (report_tensor_first ! k))"
  proof (intro allI impI)
    fix j assume j: "j < length report_tensor_first"
      "0 < j \<and> is_tensor_line (report_tensor_first ! j)"
    have "\<forall>q<length report_tensor_first. is_tensor_line (report_tensor_first ! q) \<longrightarrow> q = 0 \<or> q = 5"
      by (simp add: report_tensor_first_def is_tensor_line_def All_less_Suc)
    then have "j = 5" using j by auto
    moreover have "is_temp_line (report_tensor_first ! 4)"
      by (simp add: report_tensor_first_def is_temp_line_def)
    ultimately show "\<exists>k\<le>j. is_temp_line (report_tensor_first ! k)"
      by (intro exI[of _ 4]) simp
  qed
  show ?thesis
    using tensor_before_temperature[OF wf1 wf2 i1 i2 i3 t last] i1 i2 i3 t by simp
qed

lemma floats_InrD:
  "floats ts = Inr xs \<Longrightarrow> length xs = length ts \<and> (\<forall>tok\<in>set ts. py_float tok \<noteq> Inl ValueError)"
  by (induction ts arbitrary: xs) (auto split: sum.splits)

lemma read_tensor_InrD:
  assumes "read_tensor rest = Inr b"
  shows "3 \<le> length rest"
    and "\<forall>j<3. \<forall>tok\<in>set (split_ws (rest ! j)). py_float tok \<noteq> Inl ValueError"
proof -
  obtain rows where rows: "read_rows 3 rest = Inr rows"
    using assms by (auto simp: read_tensor_def split: sum.splits)
  obtain l0 l1 l2 rest' r0 r1 r2 where r: "rest = l0 # l1 # l2 # rest'"
    "floats (split_ws l0) = Inr r0" "floats (split_ws l1) = Inr r1" "floats (split_ws l2) = Inr r2"
    using rows
    by (cases rest; cases "tl rest"; cases "tl (tl rest)")
      (auto simp: eval_nat_numeral split: sum.splits)
  show "3 \<le> length rest" using r(1) by simp
  show "\<forall>j<3. \<forall>tok\<in>set (split_ws (rest ! j)). py_float tok \<noteq> Inl ValueError"
    using floats_InrD[OF r(2)] floats_InrD[OF r(3)] floats_InrD[OF r(4)] r(1)
    by (auto simp: less_Suc_eq eval_nat_numeral)
qed

lemma read_tensor_rows:
  assumes "3 \<le> length rest"
    and "floats (split_ws (rest ! 0)) = Inr r0"
    and "floats (split_ws (rest ! 1)) = Inr r1"
    and "floats (split_ws (rest ! 2)) = Inr r2"
    and "length r1 = length r0" and "length r2 = length r0"
  shows "read_tensor rest = Inr [r0, r1, r2]"
proof -
  obtain l0 l1 l2 rest' where r: "rest = l0 # l1 # l2 # rest'"
    using assms(1) by (cases rest; cases "tl rest"; cases "tl (tl rest)") auto
  show ?thesis
    using assms(2-6) unfolding r
    by (simp add: read_tensor_def np_array_def eval_nat_numeral)
qed

text \<open>
  C4, as stated, fails: three rows of four numbers each after a tensor line are accepted
  and stored as a 3x4 array.
\<close>

theorem four_column_block_accepted:
  "is_tensor_line (report_four_columns ! 0) \<and>
   length (split_ws (report_four_columns ! 1)) = 4 \<and>
   length (split_ws (report_four_columns ! 2)) = 4 \<and>
   length (split_ws (report_four_columns ! 3)) = 4 \<and>
   parse_orca_output report_four_columns
     = Inr [(None, [[1, 2, 3, 4], [5, 6, 7, 8], [9, 10, 11, 12]])]"
  by (simp add: report_four_columns_def parser_defs eval_nat_numeral)

text \<open>
  C4, amended. Let a tensor line \<open>i\<close> be followed by fewer than three lines, or let one of
  the three lines after it hold a token that \<open>float\<close> rejects. Then the extraction returns
  no mapping; in a report without a token that \<open>float\<close> reads as an infinity or a NaN, it
  raises IndexError or ValueError. Let instead the three lines after it hold \<open>k\<close> tokens
  each, all read by \<open>float\<close> as numbers. Then the block is read as the 3 x \<open>k\<close> array of
  these numbers, whatever \<open>k\<close> is.
\<close>

theorem unreadable_block_raises:
  assumes "i < length ls" and "is_tensor_line (ls ! i)"
  shows "(length ls - Suc i < 3 \<or>
          (\<exists>j<3. \<exists>tok\<in>set (split_ws (ls ! (Suc i + j))). py_float tok = Inl ValueError)
          \<longrightarrow> (\<forall>m. parse_orca_output ls \<noteq> Inr m) \<and>
              ((\<forall>line\<in>set ls. \<forall>tok\<in>set (split_ws line). py_float tok \<noteq> Inl NonFinite)
               \<longrightarrow> parse_orca_output ls = Inl IndexError \<or> parse_orca_output ls = Inl ValueError)) \<and>
         (3 \<le> length ls - Suc i \<and>
          floats (split_ws (ls ! (Suc i + 0))) = Inr r0 \<and>
          floats (split_ws (ls ! (Suc i + 1))) = Inr r1 \<and>
          floats (split_ws (ls ! (Suc i + 2))) = Inr r2 \<and>
          length r0 = k \<and> length r1 = k \<and> length r2 = k
          \<longrightarrow> read_tensor (drop (Suc i) ls) = Inr [r0, r1, r2])"
proof (intro conjI impI)
  assume bad: "length ls - Suc i < 3 \<or>
    (\<exists>j<3. \<exists>tok\<in>set (split_ws (ls ! (Suc i + j))). py_float tok = Inl ValueError)"
  show no: "\<forall>m. parse_orca_output ls \<noteq> Inr m"
  proof (intro allI notI)
    fix m assume m: "parse_orca_output ls = Inr m"
    then obtain b where b: "read_tensor (drop (Suc i) ls) = Inr b"
      using parse_orca_output_well_formed(2)[OF m assms(1)] assms(2) by blast
    note D = read_tensor_InrD[OF b]
    have len: "3 \<le> length ls - Suc i" using D(1) by simp
    have nth: "drop (Suc i) ls ! j = ls ! (Suc i + j)" if "j < 3" for j
      using that len by simp
    have A: "\<forall>j<3. \<forall>tok\<in>set (split_ws (ls ! (Suc i + j))). py_float tok \<noteq> Inl ValueError"
      using D(2) nth by auto
    from bad show False
    proof (elim disjE)
      assume "length ls - Suc i < 3"
      with len show False by simp
    next
      assume "\<exists>j<3. \<exists>tok\<in>set (split_ws (ls ! (Suc i + j))). py_float tok = Inl ValueError"
      with A show False by blast
    qed
  qed
  assume fin: "\<forall>line\<in>set ls. \<forall>tok\<in>set (split_ws line). py_float tok \<noteq> Inl NonFinite"
  show "parse_orca_output ls = Inl IndexError \<or> parse_orca_output ls = Inl ValueError"
  proof (cases "parse_orca_output ls")
    case (Inl e)
    have "e \<noteq> NonFinite"
      using scan_lines_finite[OF fin, of None "[]"] Inl by (auto simp: parse_orca_output_def)
    then show ?thesis
      using scan_lines_error[of ls None "[]" e] Inl by (auto simp: parse_orca_output_def)
  next
    case (Inr m)
    then show ?thesis using no by blast
  qed
next
  assume ok: "3 \<le> length ls - Suc i \<and>
          floats (split_ws (ls ! (Suc i + 0))) = Inr r0 \<and>
          floats (split_ws (ls ! (Suc i + 1))) = Inr r1 \<and>
          floats (split_ws (ls ! (Suc i + 2))) = Inr r2 \<and>
          length r0 = k \<and> length r1 = k \<and> length r2 = k"
  then have len: "3 \<le> length (drop (Suc i) ls)" by simp
  have nth: "drop (Suc i) ls ! j = ls ! (Suc i + j)" if "j < 3" for j
    using that len by simp
  show "read_tensor (drop (Suc i) ls) = Inr [r0, r1, r2]"
    using len
  proof (rule read_tensor_rows)
    show "floats (split_ws (drop (Suc i) ls ! 0)) = Inr r0" using ok nth[of 0] by simp
    show "floats (split_ws (drop (Suc i) ls ! 1)) = Inr r1" using ok nth[of 1] by simp
    show "floats (split_ws (drop (Suc i) ls ! 2)) = Inr r2" using ok nth[of 2] by simp
    show "length r1 = length r0" using ok by simp
    show "length r2 = length r0" using ok by simp
  qed
qed

lemma truncated_finite:
  "\<forall>line\<in>set report_truncated. \<forall>tok\<in>set (split_ws line). py_float tok \<noteq> Inl NonFinite"
  by (simp add: report_truncated_def parser_defs)

lemma bad_token_finite:
  "\<forall>line\<in>set report_bad_token. \<forall>tok\<in>set (split_ws line). py_float tok \<noteq> Inl NonFinite"
  by (simp add: report_bad_token_def parser_defs)

theorem unreadable_block_raises_witness:
  "(0 < length report_truncated \<and> is_tensor_line (report_truncated ! 0) \<and>
    length report_truncated - Suc 0 < 3 \<and>
    parse_orca_output report_truncated = Inl IndexError) \<and>
   (0 < length report_bad_token \<and> is_tensor_line (report_bad_token ! 0) \<and>
    py_float ''x'' = Inl ValueError \<and> ''x'' \<in> set (split_ws (report_bad_token ! (Suc 0 + 1))) \<and>
    parse_orca_output report_bad_token = Inl ValueError) \<and>
   (0 < length report_four_columns \<and> is_tensor_line (report_four_columns ! 0) \<and>
    3 \<le> length report_four_columns - Suc 0 \<and>
    floats (split_ws (report_four_columns ! (Suc 0 + 0))) = Inr [1, 2, 3, 4] \<and>
    floats (split_ws (report_four_columns ! (Suc 0 + 1))) = Inr [5, 6, 7, 8] \<and>
    floats (split_ws (report_four_columns ! (Suc 0 + 2))) = Inr [9, 10, 11, 12] \<and>
    read_tensor (drop (Suc 0) report_four_columns)
      = Inr [[1, 2, 3, 4], [5, 6, 7, 8], [9, 10, 11, 12]])"
proof -
  have a1: "0 < length report_truncated" by (simp add: report_truncated_def)
  have b1: "is_tensor_line (report_truncated ! 0)"
    by (simp add: report_truncated_def is_tensor_line_def)
  have c1: "length report_truncated - Suc 0 < 3" by (simp add: report_truncated_def)
  have n1: "parse_orca_output report_truncated \<noteq> Inl ValueError"
    by (simp add: report_truncated_def parser_defs eval_nat_numeral)
  have r1: "parse_orca_output report_truncated = Inl IndexError"
    using unreadable_block_raises[OF a1 b1] c1 truncated_finite n1 by blast
  have a2: "0 < length report_bad_token" by (simp add: report_bad_token_def)
  have b2: "is_tensor_line (report_bad_token ! 0)"
    by (simp add: report_bad_token_def is_tensor_line_def)
  have x: "py_float ''x'' = Inl ValueError" by (simp add: parser_defs)
  have m2: "''x'' \<in> set (split_ws (report_bad_token ! (Suc 0 + 1)))"
    by (simp add: report_bad_token_def split_ws_def is_space_def)
  have c2: "\<exists>j<3. \<exists>tok\<in>set (split_ws (report_bad_token ! (Suc 0 + j))). py_float tok = Inl ValueError"
    using x m2 by (intro exI[of _ 1]) auto
  have n2: "parse_orca_output report_bad_token \<noteq> Inl IndexError"
    by (simp add: report_bad_token_def parser_defs eval_nat_numeral)
  have r2: "parse_orca_output report_bad_token = Inl ValueError"
    using unreadable_block_raises[OF a2 b2] c2 bad_token_finite n2 by blast
  have a3: "0 < length report_four_columns" by (simp add: report_four_columns_def)
  have b3: "is_tensor_line (report_four_columns ! 0)"
    by (simp add: report_four_columns_def is_tensor_line_def)
  have c3: "3 \<le> length report_four_columns - Suc 0" by (simp add: report_four_columns_def)
  have f0: "floats (split_ws (report_four_columns ! (Suc 0 + 0))) = Inr [1, 2, 3, 4]"
    by (simp add: report_four_columns_def parser_defs)
  have f1: "floats (split_ws (report_four_columns ! (Suc 0 + 1))) = Inr [5, 6, 7, 8]"
    by (simp add: report_four_columns_def parser_defs)
  have f2: "floats (split_ws (report_four_columns ! (Suc 0 + 2))) = Inr [9, 10, 11, 12]"
    by (simp add: report_four_columns_def parser_defs)
  have r3: "read_tensor (drop (Suc 0) report_four_columns)
      = Inr [[1, 2, 3, 4], [5, 6, 7, 8], [9, 10, 11, 12]]"
    using unreadable_block_raises[OF a3 b3, of "[1, 2, 3, 4]" "[5, 6, 7, 8]" "[9, 10, 11, 12]" 4]
      c3 f0 f1 f2 by simp
  show ?thesis using a1 b1 c1 r1 a2 b2 x m2 r2 a3 b3 c3 f0 f1 f2 r3 by blast
qed

section \<open>Properties of the pipeline\<close>

lemma process_items_in_range:
  "process_items eigh min_temp max_temp items = Inr results \<Longrightarrow>
     \<forall>r\<in>set results. min_temp \<le> temp r \<and> temp r \<le> max_temp"
proof (induction items arbitrary: results)
  case Nil
  then show ?case by simp
next
  case (Cons item items)
  obtain key chi where item: "item = (key, chi)" by (cases item)
  show ?case using Cons unfolding item
    by (auto split: option.splits if_splits sum.splits)
qed

text \<open>
  C7. Every record the pipeline returns has its temperature within the bounds, both
  included; a run that raises returns no record.
\<close>

theorem range_filter:
  assumes "process_orca_file eigh ls min_temp max_temp = Inr results"
  shows "\<forall>r\<in>set results. min_temp \<le> temp r \<and> temp r \<le> max_temp"
  using assms process_items_in_range
  by (auto simp: process_orca_file_def split: sum.splits)

lemma parse_report_two_temperatures:
  "parse_orca_output report_two_temperatures =
     Inr [(Some 50, [[1, 0, 0], [0, 2, 0], [0, 0, 3]]), (Some 300, [[2, 0, 0], [0, 4, 0], [0, 0, 6]])]"
  by (simp add: report_two_temperatures_def parser_defs eval_nat_numeral)

lemma process_report_two_temperatures:
  "\<exists>r. process_orca_file eigh_diagonal report_two_temperatures 0 100 = Inr [r] \<and> temp r = 50"
proof -
  have "\<exists>c. convert_chi_tensor [[1, 0, 0], [0, 2, 0], [0, 0, 3]] (Some 50) = Inr c \<and> shape c = (3, 3)"
    by (simp add: convert_chi_tensor_def avogadro_number_def shape_def Let_def)
  then obtain c where c: "convert_chi_tensor [[1, 0, 0], [0, 2, 0], [0, 0, 3]] (Some 50) = Inr c"
    "shape c = (3, 3)" by blast
  obtain t where t: "calculate_traceless_tensor c = Inr t"
    using traceless_3x3[OF c(2)] by blast
  have "length (eigh_diagonal t) = 3" by (simp add: eigh_diagonal_def)
  then obtain d where d: "calculate_eigenvalues eigh_diagonal c = Inr d"
    using calculate_eigenvalues_3[of c t eigh_diagonal, OF t] by blast
  show ?thesis
    using c(1) d
    by (simp add: process_orca_file_def parse_report_two_temperatures)
qed

theorem range_filter_witness:
  "\<exists>results. process_orca_file eigh_diagonal report_two_temperatures 0 100 = Inr results \<and>
     map temp results = [50] \<and> (\<forall>r\<in>set results. 0 \<le> temp r \<and> temp r \<le> 100)"
proof -
  obtain r where r: "process_orca_file eigh_diagonal report_two_temperatures 0 100 = Inr [r]"
    "temp r = 50"
    using process_report_two_temperatures by blast
  have "\<forall>q\<in>set [r]. 0 \<le> temp q \<and> temp q \<le> 100" using r(1) by (rule range_filter)
  with r show ?thesis by simp
qed

end
